theory Spec2Isabelle
  imports Complex_Main "HOL-Library.Sublist"
begin

section \<open>Strings\<close>

text \<open>
  A source string is a sequence of code units, modelled as \<^typ>\<open>string\<close>.  The string
  methods of the runtime that \<^verbatim>\<open>client.ts\<close> calls are written out on lists.
\<close>

text \<open>\<^verbatim>\<open>t.includes(n)\<close>: \<open>n\<close> occurs in \<open>t\<close> as a contiguous run.\<close>

fun str_includes :: "string \<Rightarrow> string \<Rightarrow> bool" where
  "str_includes [] n = (n = [])"
| "str_includes (x # xs) n = (prefix n (x # xs) \<or> str_includes xs n)"

text \<open>\<^verbatim>\<open>t.startsWith(n)\<close>.\<close>

definition startsWith :: "string \<Rightarrow> string \<Rightarrow> bool" where
  "startsWith t n = prefix n t"

text \<open>\<^verbatim>\<open>t.toLowerCase()\<close> on the letters \<open>A\<close> to \<open>Z\<close>; other code units are kept.\<close>

definition lower_char :: "char \<Rightarrow> char" where
  "lower_char c =
     (let n = (of_char c :: nat) in if 65 \<le> n \<and> n \<le> 90 then char_of (n + 32) else c)"

definition toLowerCase :: "string \<Rightarrow> string" where
  "toLowerCase t = map lower_char t"

section \<open>Credential redaction (\<^verbatim>\<open>client.ts\<close>, \<^verbatim>\<open>redactCode\<close>)\<close>

text \<open>
  \<^verbatim>\<open>const escaped = code.replace(/[.*+?^${}()|[\]\\]/g, '\\$&')\<close>: every character of the
  class is prefixed with a backslash.
\<close>

definition backslash :: char where
  "backslash = CHR 0x5C"

definition syntax_chars :: "char list" where
  "syntax_chars = ''.*+?^${}()|[]'' @ [backslash]"

fun escapeRegExp :: "string \<Rightarrow> string" where
  "escapeRegExp [] = []"
| "escapeRegExp (x # xs) =
     (if x \<in> set syntax_chars then backslash # x # escapeRegExp xs else x # escapeRegExp xs)"

text \<open>
  \<^verbatim>\<open>new RegExp(escaped, 'g')\<close>.  The pattern language is given a meaning on the fragment
  that \<^verbatim>\<open>redactCode\<close> can build and on the wildcard \<open>.\<close>: a pattern is a sequence of atoms, each
  matching one code unit.  A backslash followed by a syntax character is that character
  taken literally; an unescaped \<open>.\<close> matches any code unit but a line terminator; a
  character outside the class stands for itself.  Any other pattern (quantifiers, groups,
  classes, anchors, alternation, class escapes, a trailing backslash) is outside the
  fragment: \<open>compile\<close> gives \<open>None\<close>.
\<close>

datatype atom = Lit char | AnyChar

fun compile :: "string \<Rightarrow> atom list option" where
  "compile [] = Some []"
| "compile (x # xs) =
     (if x = backslash then
        (case xs of
           [] \<Rightarrow> None
         | y # ys \<Rightarrow>
             if y \<in> set syntax_chars then map_option ((#) (Lit y)) (compile ys) else None)
      else if x = CHR ''.'' then map_option ((#) AnyChar) (compile xs)
      else if x \<in> set syntax_chars then None
      else map_option ((#) (Lit x)) (compile xs))"

fun atom_matches :: "atom \<Rightarrow> char \<Rightarrow> bool" where
  "atom_matches (Lit c) x = (x = c)"
| "atom_matches AnyChar x = (x \<noteq> CHR 0x0A \<and> x \<noteq> CHR 0x0D)"

text \<open>The pattern matches at the start of the text.\<close>

fun match_here :: "atom list \<Rightarrow> string \<Rightarrow> bool" where
  "match_here [] t = True"
| "match_here (a # as) [] = False"
| "match_here (a # as) (x # xs) = (atom_matches a x \<and> match_here as xs)"

lemma match_here_length: "match_here re t \<Longrightarrow> length re \<le> length t"
  by (induction re t rule: match_here.induct) auto

text \<open>
  \<^verbatim>\<open>text.replace(re, rep)\<close> with the global flag: the text is scanned from the left; where
  the pattern matches, the replacement is written and the scan goes on after the match
  (after one more code unit, copied, when the match is empty); elsewhere one code unit
  is copied.  The replacement \<^verbatim>\<open>'[REDACTED]'\<close> has no \<^verbatim>\<open>$\<close>, so it is written as it is.
\<close>

function replace_global :: "atom list \<Rightarrow> string \<Rightarrow> string \<Rightarrow> string" where
  "replace_global re rep t =
     (if match_here re t then
        (if re = [] then
           rep @ (case t of [] \<Rightarrow> [] | x # xs \<Rightarrow> x # replace_global re rep xs)
         else rep @ replace_global re rep (drop (length re) t))
      else (case t of [] \<Rightarrow> [] | x # xs \<Rightarrow> x # replace_global re rep xs))"
  by pat_completeness auto
termination
proof (relation "measure (\<lambda>(re, rep, t). length t)")
  show "wf (measure (\<lambda>(re, rep, t). length t))" by simp
next
  fix re :: "atom list" and rep t :: string and x xs
  assume "t = x # xs"
  then show "((re, rep, xs), (re, rep, t)) \<in> measure (\<lambda>(re, rep, t). length t)" by simp
next
  fix re :: "atom list" and rep t :: string
  assume m: "match_here re t" and ne: "re \<noteq> []"
  from match_here_length [OF m] ne have "t \<noteq> []" by auto
  with ne show "((re, rep, drop (length re) t), (re, rep, t)) \<in> measure (\<lambda>(re, rep, t). length t)"
    by simp
next
  fix re :: "atom list" and rep t :: string and x xs
  assume "t = x # xs"
  then show "((re, rep, xs), (re, rep, t)) \<in> measure (\<lambda>(re, rep, t). length t)" by simp
qed

declare replace_global.simps [simp del]

definition REDACTED :: string where
  "REDACTED = ''[REDACTED]''"

text \<open>
  \<^verbatim>\<open>redactCode\<close>.  \<^verbatim>\<open>!code\<close> holds of the empty string only.  The last case is not reached:
  the escaped credential always compiles (lemma \<open>compile_escapeRegExp\<close> below).
\<close>

definition redactCode :: "string \<Rightarrow> string \<Rightarrow> string" where
  "redactCode text code =
     (if code = [] then text
      else (case compile (escapeRegExp code) of
              Some re \<Rightarrow> replace_global re REDACTED text
            | None \<Rightarrow> text))"

section \<open>JSON values and thrown values\<close>

text \<open>
  A decoded JSON value.  An object lists its fields in order; a field is read by the first
  entry with its key (\<^verbatim>\<open>JSON.parse\<close> yields distinct keys).  Numbers are only passed
  along and tested for zero, never computed with.
\<close>

datatype json =
    JNull
  | JBool bool
  | JNum real
  | JStr string
  | JArr "json list"
  | JObj "(string \<times> json) list"

text \<open>
  What a \<^verbatim>\<open>throw\<close> or a rejected promise carries: an \<^verbatim>\<open>Error\<close> with its \<^verbatim>\<open>name\<close> and
  \<^verbatim>\<open>message\<close>, or a value that is no \<^verbatim>\<open>Error\<close>.
\<close>

datatype thrown = JsError (err_name: string) (err_message: string) | NonError json

text \<open>\<^verbatim>\<open>new Error(msg)\<close>.\<close>

definition new_Error :: "string \<Rightarrow> thrown" where
  "new_Error msg = JsError ''Error'' msg"

text \<open>A number in a template literal: its decimal digits.\<close>

definition digit :: "nat \<Rightarrow> char" where
  "digit d = ''0123456789'' ! d"

fun showNat :: "nat \<Rightarrow> string" where
  "showNat n = (if n < 10 then [digit n] else showNat (n div 10) @ [digit (n mod 10)])"

declare showNat.simps [simp del]

section \<open>The gateway client (\<^verbatim>\<open>client.ts\<close>)\<close>

definition GATEWAY_URL :: string where
  "GATEWAY_URL = ''https://interface.cournot.ai/play/polymarket/ai_data''"

definition MAX_RETRIES :: nat where
  "MAX_RETRIES = 3"

definition TIMEOUT_MS :: nat where
  "TIMEOUT_MS = 300000"

text \<open>
  \<^verbatim>\<open>buildEnvelope\<close>.  The envelope is the object literal of the source, with its keys in
  the source's order.  \<^verbatim>\<open>JSON.stringify\<close> belongs to the runtime and is a parameter
  \<open>stringify\<close> of every function that serialises.
\<close>

definition buildEnvelope :: "(json \<Rightarrow> string) \<Rightarrow> string \<Rightarrow> string \<Rightarrow> string \<Rightarrow> json \<Rightarrow> json" where
  "buildEnvelope stringify code path method payload =
     JObj [(''code'', JStr code),
           (''post_data'', JStr (stringify payload)),
           (''path'', JStr path),
           (''method'', JStr method)]"

definition isTransientError :: "nat \<Rightarrow> bool" where
  "isTransientError status = (status \<ge> 500 \<or> status = 429 \<or> status = 408)"

fun isNetworkError :: "thrown \<Rightarrow> bool" where
  "isNetworkError (NonError v) = False"
| "isNetworkError (JsError name message) =
     (let msg = toLowerCase message in
        name = ''AbortError'' \<or>
        str_includes msg ''fetch'' \<or>
        str_includes msg ''network'' \<or>
        str_includes msg ''econnrefused'' \<or>
        str_includes msg ''econnreset'' \<or>
        str_includes msg ''etimedout'' \<or>
        str_includes msg ''socket'')"

text \<open>
  What the transport sees and gives.  A request is the pair of arguments of \<^verbatim>\<open>fetchFn\<close>;
  \<open>timeout_ms\<close> stands for the abort signal, which fires after that many milliseconds.
  A response has the \<^verbatim>\<open>ok\<close> flag, the status, and what reading the body gives:
  \<^verbatim>\<open>text()\<close> and \<^verbatim>\<open>json()\<close> each resolve or reject.
\<close>

record request =
  url :: string
  http_method :: string
  headers :: "(string \<times> string) list"
  body :: string
  timeout_ms :: nat

record response =
  ok :: bool
  status :: nat
  text_result :: "thrown + string"
  json_result :: "thrown + json"

text \<open>The \<^verbatim>\<open>ok\<close> flag of a response of the Fetch API: the status is in 200..299.\<close>

definition wf_response :: "response \<Rightarrow> bool" where
  "wf_response r = (ok r = (200 \<le> status r \<and> status r \<le> 299))"

text \<open>
  The effects of a call, in order: a suspension (\<^verbatim>\<open>sleepFn(ms)\<close>, which resolves, as the
  \<^verbatim>\<open>sleep\<close> of the source does) or a transport call.
  The transport \<^verbatim>\<open>fetchFn\<close> may keep state of its own (type \<open>'s\<close>): it takes its state
  and the request and gives an outcome, a rejection (\<open>Inl\<close>) or a response (\<open>Inr\<close>), and
  its next state.
\<close>

datatype event = Sleep nat | Fetch request

type_synonym 's transport = "'s \<Rightarrow> request \<Rightarrow> (thrown + response) \<times> 's"

definition gateway_request :: "(json \<Rightarrow> string) \<Rightarrow> json \<Rightarrow> request" where
  "gateway_request stringify envelope =
     \<lparr>url = GATEWAY_URL,
      http_method = ''POST'',
      headers = [(''Content-Type'', ''application/json'')],
      body = stringify envelope,
      timeout_ms = TIMEOUT_MS\<rparr>"

text \<open>How one turn of the retry loop ends.\<close>

datatype attempt_result = Return json | Continue thrown | Throw thrown

definition gateway_message :: "nat \<Rightarrow> string \<Rightarrow> string \<Rightarrow> string" where
  "gateway_message st path safeBody =
     ''Gateway returned '' @ showNat st @ '' for '' @ path @ '': '' @ safeBody"

text \<open>The \<^verbatim>\<open>catch\<close> block of the loop body.\<close>

fun catch_block :: "string \<Rightarrow> string \<Rightarrow> thrown \<Rightarrow> attempt_result" where
  "catch_block code path (NonError v) = Throw (NonError v)"
| "catch_block code path (JsError name message) =
     (if \<not> startsWith message ''Gateway returned'' then
        (if isNetworkError (JsError name message) then
           Continue (new_Error (redactCode (''Network error calling '' @ path @ '': '' @ message) code))
         else Throw (JsError name message))
      else Throw (JsError name message))"

text \<open>
  The \<^verbatim>\<open>try\<close> block, given the outcome of the transport call.  A rejection of the
  transport, the \<^verbatim>\<open>throw\<close> for a fatal status and a rejection of \<^verbatim>\<open>response.json()\<close> all
  reach the \<^verbatim>\<open>catch\<close> block; \<^verbatim>\<open>continue\<close> for a transient status does not.
\<close>

definition try_block :: "string \<Rightarrow> string \<Rightarrow> thrown + response \<Rightarrow> attempt_result" where
  "try_block code path fetched =
     (case fetched of
        Inl err \<Rightarrow> catch_block code path err
      | Inr resp \<Rightarrow>
          if \<not> ok resp then
            (let body_text = (case text_result resp of Inl _ \<Rightarrow> [] | Inr b \<Rightarrow> b);
                 safeBody = redactCode body_text code
             in if isTransientError (status resp) then
                  Continue (new_Error (gateway_message (status resp) path safeBody))
                else catch_block code path (new_Error (gateway_message (status resp) path safeBody)))
          else
            (case json_result resp of
               Inl err \<Rightarrow> catch_block code path err
             | Inr data \<Rightarrow> Return data))"

definition backoff :: "nat \<Rightarrow> nat" where
  "backoff attempt = min (1000 * 2 ^ attempt) 10000"

text \<open>
  The \<^verbatim>\<open>for\<close> loop of \<^verbatim>\<open>GatewayClient.call\<close> from turn \<open>attempt\<close> on, and the \<^verbatim>\<open>throw\<close> after
  it.  The result is what the call resolves to (\<open>Inr\<close>) or rejects with (\<open>Inl\<close>), the
  effects in order, and the transport's state.
\<close>

function call_loop ::
  "(json \<Rightarrow> string) \<Rightarrow> 's transport \<Rightarrow> string \<Rightarrow> string \<Rightarrow> json \<Rightarrow> nat \<Rightarrow> thrown option \<Rightarrow> 's \<Rightarrow>
     (thrown + json) \<times> event list \<times> 's" where
  "call_loop stringify fetchFn code path envelope attempt lastError s =
     (if attempt < MAX_RETRIES then
        (let slept = (if attempt > 0 then [Sleep (backoff attempt)] else []);
             req = gateway_request stringify envelope
         in case fetchFn s req of
              (fetched, s') \<Rightarrow>
                (case try_block code path fetched of
                   Return data \<Rightarrow> (Inr data, slept @ [Fetch req], s')
                 | Throw err \<Rightarrow> (Inl err, slept @ [Fetch req], s')
                 | Continue err \<Rightarrow>
                     (case call_loop stringify fetchFn code path envelope (attempt + 1) (Some err) s' of
                        (res, evs, s'') \<Rightarrow> (res, slept @ Fetch req # evs, s''))))
      else
        (Inl (case lastError of
                Some err \<Rightarrow> err
              | None \<Rightarrow> new_Error (''Failed after '' @ showNat MAX_RETRIES @ '' retries for '' @ path)),
         [], s))"
  by pat_completeness auto
termination
  by (relation "measure (\<lambda>(stringify, fetchFn, code, path, envelope, attempt, lastError, s).
        MAX_RETRIES - attempt)") auto

declare call_loop.simps [simp del]

definition call ::
  "(json \<Rightarrow> string) \<Rightarrow> 's transport \<Rightarrow> string \<Rightarrow> string \<Rightarrow> string \<Rightarrow> json \<Rightarrow> 's \<Rightarrow>
     (thrown + json) \<times> event list \<times> 's" where
  "call stringify fetchFn code path method payload s =
     (let envelope = buildEnvelope stringify code path method payload
      in call_loop stringify fetchFn code path envelope 0 None s)"

text \<open>The transport calls among the effects.\<close>

fun fetches :: "event list \<Rightarrow> request list" where
  "fetches [] = []"
| "fetches (Sleep ms # evs) = fetches evs"
| "fetches (Fetch req # evs) = req # fetches evs"

fun sleeps :: "event list \<Rightarrow> nat list" where
  "sleeps [] = []"
| "sleeps (Sleep ms # evs) = ms # sleeps evs"
| "sleeps (Fetch req # evs) = sleeps evs"

text \<open>
  The effects of turn \<open>k\<close> of the loop as the properties below state them: the suspension,
  but for the first turn, and the transport call.
\<close>

definition turn_events :: "request \<Rightarrow> nat \<Rightarrow> event list" where
  "turn_events req k = (if k > 0 then [Sleep (min (1000 * 2 ^ k) 10000)] else []) @ [Fetch req]"

section \<open>Reading decoded values\<close>

text \<open>
  \<^verbatim>\<open>o.k\<close> for the keys the source reads; \<open>None\<close> is \<^verbatim>\<open>undefined\<close>.  The source reads a key
  only after it has checked \<^verbatim>\<open>typeof o === 'object'\<close>; an array has none of these keys.
\<close>

fun field :: "json \<Rightarrow> string \<Rightarrow> json option" where
  "field (JObj fs) k = map_of fs k"
| "field v k = None"

text \<open>\<^verbatim>\<open>a ?? b\<close>: \<open>b\<close> when \<open>a\<close> is \<^verbatim>\<open>null\<close> or \<^verbatim>\<open>undefined\<close>.\<close>

definition coalesce :: "json option \<Rightarrow> json option \<Rightarrow> json option" where
  "coalesce a b = (if a = None \<or> a = Some JNull then b else a)"

text \<open>What a condition takes for true.\<close>

fun truthy :: "json option \<Rightarrow> bool" where
  "truthy None = False"
| "truthy (Some JNull) = False"
| "truthy (Some (JBool b)) = b"
| "truthy (Some (JNum n)) = (n \<noteq> 0)"
| "truthy (Some (JStr s)) = (s \<noteq> [])"
| "truthy (Some (JArr xs)) = True"
| "truthy (Some (JObj fs)) = True"

text \<open>\<^verbatim>\<open>v && typeof v === 'object'\<close>: an array or an object.\<close>

fun is_object :: "json \<Rightarrow> bool" where
  "is_object (JArr xs) = True"
| "is_object (JObj fs) = True"
| "is_object v = False"

fun asOptionalString :: "json option \<Rightarrow> string option" where
  "asOptionalString (Some (JStr s)) = Some s"
| "asOptionalString v = None"

text \<open>
  An object literal handed to \<^verbatim>\<open>JSON.stringify\<close>: a key whose value is \<^verbatim>\<open>undefined\<close> is
  left out.
\<close>

definition obj :: "(string \<times> json option) list \<Rightarrow> json" where
  "obj fs = JObj (List.map_filter (\<lambda>(k, v). map_option (Pair k) v) fs)"

text \<open>\<^verbatim>\<open>extractData\<close> (\<^verbatim>\<open>pipeline.ts\<close>).\<close>

fun extractData :: "json \<Rightarrow> json" where
  "extractData (JObj fs) = (case map_of fs ''data'' of Some v \<Rightarrow> v | None \<Rightarrow> JObj fs)"
| "extractData v = v"

section \<open>Response shapes (\<^verbatim>\<open>types.ts\<close>, \<^verbatim>\<open>schemas.ts\<close>)\<close>

text \<open>
  The response types.  A field of type \<^verbatim>\<open>unknown\<close> holds any value or none
  (\<^verbatim>\<open>undefined\<close>).  Field names that two types share carry the type's name in front; the
  last field of each response holds the keys the schema does not name, which
  \<^verbatim>\<open>passthrough()\<close> keeps.
\<close>

record PromptResponse =
  market_id :: "string option"
  prompt_spec :: "json option"
  tool_plan :: "json option"
  metadata :: "json option"
  prompt_rest :: "(string \<times> json) list"

record CollectResponse =
  evidence_bundles :: "json list"
  collectors_used :: "string list"
  execution_logs :: "json list option"
  collect_errors :: "json list"
  collect_rest :: "(string \<times> json) list"

record AuditResponse =
  reasoning_trace :: "json option"
  audit_errors :: "json list"
  audit_rest :: "(string \<times> json) list"

record JudgeResponse =
  verdict :: "json option"
  judge_outcome :: string
  judge_confidence :: real
  judge_errors :: "json list"
  judge_rest :: "(string \<times> json) list"

record Roots =
  prompt_spec_hash :: string
  evidence_root :: string
  reasoning_root :: string
  por_root :: string

record BundleResponse =
  por_bundle :: "json option"
  bundle_por_root :: string
  bundle_roots :: Roots
  bundle_errors :: "json list"
  bundle_rest :: "(string \<times> json) list"

text \<open>
  The validators of the schema library that \<^verbatim>\<open>schemas.ts\<close> combines, on the value of a
  key (\<open>None\<close> when the key is absent).  The result is \<open>None\<close> when validation fails.
\<close>

fun z_string :: "json option \<Rightarrow> string option" where
  "z_string (Some (JStr s)) = Some s"
| "z_string v = None"

fun z_number :: "json option \<Rightarrow> real option" where
  "z_number (Some (JNum n)) = Some n"
| "z_number v = None"

text \<open>\<^verbatim>\<open>z.unknown()\<close> accepts every value and an absent key, and gives what it got.\<close>

definition z_unknown :: "json option \<Rightarrow> json option" where
  "z_unknown v = v"

fun z_object :: "json option \<Rightarrow> (string \<times> json) list option" where
  "z_object (Some (JObj fs)) = Some fs"
| "z_object v = None"

text \<open>
  \<^verbatim>\<open>z.array(item)\<close>: an array whose elements all pass \<open>item\<close>.  For \<^verbatim>\<open>z.unknown()\<close>
  elements \<open>item\<close> is \<open>Some\<close>: every element passes.
\<close>

fun z_array :: "(json \<Rightarrow> 'a option) \<Rightarrow> json option \<Rightarrow> 'a list option" where
  "z_array item (Some (JArr xs)) = those (map item xs)"
| "z_array item v = None"

text \<open>\<^verbatim>\<open>.optional()\<close>: an absent key is accepted and stays absent.\<close>

fun z_optional :: "(json option \<Rightarrow> 'a option) \<Rightarrow> json option \<Rightarrow> 'a option option" where
  "z_optional inner None = Some None"
| "z_optional inner (Some v) = map_option Some (inner (Some v))"

text \<open>\<^verbatim>\<open>.optional().default(d)\<close>: an absent key gives \<open>d\<close>.\<close>

fun z_default :: "(json option \<Rightarrow> 'a option) \<Rightarrow> 'a \<Rightarrow> json option \<Rightarrow> 'a option" where
  "z_default inner d None = Some d"
| "z_default inner d (Some v) = inner (Some v)"

definition passthrough :: "string list \<Rightarrow> (string \<times> json) list \<Rightarrow> (string \<times> json) list" where
  "passthrough known fs = filter (\<lambda>(k, v). k \<notin> set known) fs"

text \<open>Each schema's \<^verbatim>\<open>parse\<close>; \<open>None\<close> stands for the validation error it throws.\<close>

definition promptResponseSchema :: "json \<Rightarrow> PromptResponse option" where
  "promptResponseSchema v =
     (case z_object (Some v) of
        None \<Rightarrow> None
      | Some fs \<Rightarrow>
          (case z_optional z_string (map_of fs ''market_id'') of
             None \<Rightarrow> None
           | Some mid \<Rightarrow>
               Some \<lparr>market_id = mid,
                     prompt_spec = z_unknown (map_of fs ''prompt_spec''),
                     tool_plan = z_unknown (map_of fs ''tool_plan''),
                     metadata = z_unknown (map_of fs ''metadata''),
                     prompt_rest =
                       passthrough [''market_id'', ''prompt_spec'', ''tool_plan'', ''metadata''] fs\<rparr>))"

definition collectResponseSchema :: "json \<Rightarrow> CollectResponse option" where
  "collectResponseSchema v =
     (case z_object (Some v) of
        None \<Rightarrow> None
      | Some fs \<Rightarrow>
          (case (z_array Some (map_of fs ''evidence_bundles''),
                 z_default (z_array (\<lambda>x. z_string (Some x))) [] (map_of fs ''collectors_used''),
                 z_optional (z_array Some) (map_of fs ''execution_logs''),
                 z_default (z_array Some) [] (map_of fs ''errors'')) of
             (Some bundles, Some used, Some logs, Some errs) \<Rightarrow>
               Some \<lparr>evidence_bundles = bundles,
                     collectors_used = used,
                     execution_logs = logs,
                     collect_errors = errs,
                     collect_rest =
                       passthrough [''evidence_bundles'', ''collectors_used'',
                                    ''execution_logs'', ''errors''] fs\<rparr>
           | _ \<Rightarrow> None))"

definition auditResponseSchema :: "json \<Rightarrow> AuditResponse option" where
  "auditResponseSchema v =
     (case z_object (Some v) of
        None \<Rightarrow> None
      | Some fs \<Rightarrow>
          (case z_default (z_array Some) [] (map_of fs ''errors'') of
             None \<Rightarrow> None
           | Some errs \<Rightarrow>
               Some \<lparr>reasoning_trace = z_unknown (map_of fs ''reasoning_trace''),
                     audit_errors = errs,
                     audit_rest = passthrough [''reasoning_trace'', ''errors''] fs\<rparr>))"

definition judgeResponseSchema :: "json \<Rightarrow> JudgeResponse option" where
  "judgeResponseSchema v =
     (case z_object (Some v) of
        None \<Rightarrow> None
      | Some fs \<Rightarrow>
          (case (z_string (map_of fs ''outcome''),
                 z_number (map_of fs ''confidence''),
                 z_default (z_array Some) [] (map_of fs ''errors'')) of
             (Some oc, Some cf, Some errs) \<Rightarrow>
               Some \<lparr>verdict = z_unknown (map_of fs ''verdict''),
                     judge_outcome = oc,
                     judge_confidence = cf,
                     judge_errors = errs,
                     judge_rest =
                       passthrough [''verdict'', ''outcome'', ''confidence'', ''errors''] fs\<rparr>
           | _ \<Rightarrow> None))"

text \<open>The inner object of the bundle schema; it is not \<^verbatim>\<open>passthrough\<close>, so other keys are dropped.\<close>

definition rootsSchema :: "json option \<Rightarrow> Roots option" where
  "rootsSchema v =
     (case z_object v of
        None \<Rightarrow> None
      | Some fs \<Rightarrow>
          (case (z_string (map_of fs ''prompt_spec_hash''),
                 z_string (map_of fs ''evidence_root''),
                 z_string (map_of fs ''reasoning_root''),
                 z_string (map_of fs ''por_root'')) of
             (Some h, Some e, Some r, Some p) \<Rightarrow>
               Some \<lparr>prompt_spec_hash = h, evidence_root = e, reasoning_root = r, por_root = p\<rparr>
           | _ \<Rightarrow> None))"

definition bundleResponseSchema :: "json \<Rightarrow> BundleResponse option" where
  "bundleResponseSchema v =
     (case z_object (Some v) of
        None \<Rightarrow> None
      | Some fs \<Rightarrow>
          (case (z_string (map_of fs ''por_root''),
                 rootsSchema (map_of fs ''roots''),
                 z_default (z_array Some) [] (map_of fs ''errors'')) of
             (Some pr, Some rs, Some errs) \<Rightarrow>
               Some \<lparr>por_bundle = z_unknown (map_of fs ''por_bundle''),
                     bundle_por_root = pr,
                     bundle_roots = rs,
                     bundle_errors = errs,
                     bundle_rest =
                       passthrough [''por_bundle'', ''por_root'', ''roots'', ''errors''] fs\<rparr>
           | _ \<Rightarrow> None))"

section \<open>The report (\<^verbatim>\<open>report.ts\<close>)\<close>

record EvidenceHighlight =
  title :: "string option"
  source_url :: "string option"
  snippet :: "string option"

record RawResponses =
  prompt_response :: PromptResponse
  collect_response :: CollectResponse
  audit_response :: AuditResponse
  judge_response :: JudgeResponse
  bundle_response :: BundleResponse

record PorReport =
  outcome :: string
  confidence :: real
  resolution_rule_id :: "string option"
  evidence_highlights :: "EvidenceHighlight list"
  requirements_fulfilled :: "string list option"
  requirements_unfulfilled :: "string list option"
  reasoning_summary :: "string list"
  roots :: Roots
  raw :: RawResponses

text \<open>
  \<^verbatim>\<open>extractEvidenceHighlights\<close>.  The two loops push onto one list; here each turn gives
  the highlights it pushes.  \<open>item_highlights\<close> is the body of the inner loop.
\<close>

definition item_highlights :: "json \<Rightarrow> EvidenceHighlight list" where
  "item_highlights item =
     (if \<not> is_object item then []
      else
        [\<lparr>title = asOptionalString
             (coalesce (coalesce (field item ''title'') (field item ''headline'')) (field item ''name'')),
          source_url = asOptionalString
             (coalesce (coalesce (field item ''source_url'') (field item ''url'')) (field item ''link'')),
          snippet = asOptionalString
             (coalesce (coalesce (coalesce (field item ''snippet'') (field item ''text''))
                (field item ''content'')) (field item ''summary''))\<rparr>])"

text \<open>The body of the outer loop: the items of the bundle, or the bundle itself as one item.\<close>

definition bundle_highlights :: "json \<Rightarrow> EvidenceHighlight list" where
  "bundle_highlights b =
     (if \<not> is_object b then []
      else
        (case coalesce (coalesce (coalesce (field b ''items'') (field b ''evidence_items''))
                (field b ''results'')) (field b ''snippets'') of
           Some (JArr items) \<Rightarrow> concat (map item_highlights items)
         | _ \<Rightarrow>
             if truthy (field b ''title'') \<or> truthy (field b ''snippet'') \<or>
                truthy (field b ''source_url'') \<or> truthy (field b ''url'') \<or> truthy (field b ''text'')
             then
               [\<lparr>title = asOptionalString (coalesce (field b ''title'') (field b ''headline'')),
                 source_url = asOptionalString (coalesce (field b ''source_url'') (field b ''url'')),
                 snippet = asOptionalString
                    (coalesce (coalesce (field b ''snippet'') (field b ''text'')) (field b ''summary''))\<rparr>]
             else []))"

definition extractEvidenceHighlights :: "json list \<Rightarrow> EvidenceHighlight list" where
  "extractEvidenceHighlights bundles = take 10 (concat (map bundle_highlights bundles))"

text \<open>\<^verbatim>\<open>extractReasoningSummary\<close>.  \<open>step_text\<close> is the function mapped over the steps.\<close>

definition step_text :: "(json \<Rightarrow> string) \<Rightarrow> json \<Rightarrow> string" where
  "step_text stringify step =
     (case coalesce (coalesce (coalesce (field step ''description'') (field step ''summary''))
             (field step ''step'')) (field step ''text'') of
        Some (JStr desc) \<Rightarrow> desc
      | _ \<Rightarrow> stringify step)"

function extractReasoningSummary :: "(json \<Rightarrow> string) \<Rightarrow> json option \<Rightarrow> string list" where
  "extractReasoningSummary stringify trace =
     (if \<not> truthy trace then []
      else
        (case trace of
           Some (JArr steps) \<Rightarrow> take 10 (map (step_text stringify) (filter is_object steps))
         | Some (JObj fs) \<Rightarrow>
             (case coalesce (coalesce (map_of fs ''steps'') (map_of fs ''trace''))
                     (map_of fs ''reasoning_steps'') of
                Some (JArr steps) \<Rightarrow> extractReasoningSummary stringify (Some (JArr steps))
              | _ \<Rightarrow>
                  (case coalesce (map_of fs ''summary'') (map_of fs ''text'') of
                     Some (JStr summary) \<Rightarrow> [summary]
                   | _ \<Rightarrow> []))
         | Some (JStr s) \<Rightarrow> [s]
         | _ \<Rightarrow> []))"
  by pat_completeness auto
termination
  by (relation "measure (\<lambda>(stringify, trace). case trace of Some (JObj fs) \<Rightarrow> 1 | _ \<Rightarrow> 0)") auto

declare extractReasoningSummary.simps [simp del]

text \<open>
  \<^verbatim>\<open>extractRequirements\<close>.  \<open>requirement\<close> is the body of the loop: the label and whether
  the requirement is met, or nothing when the entry is skipped.
\<close>

definition requirement :: "json \<Rightarrow> (string \<times> bool) option" where
  "requirement req =
     (if \<not> is_object req then None
      else
        (case asOptionalString
                (coalesce (coalesce (coalesce (field req ''description'') (field req ''label''))
                   (field req ''name'')) (field req ''id'')) of
           None \<Rightarrow> None
         | Some label \<Rightarrow>
             if label = [] then None
             else Some (label,
               truthy (coalesce (coalesce (coalesce (field req ''fulfilled'') (field req ''met''))
                  (field req ''satisfied'')) (field req ''passed'')))))"

definition extractRequirements :: "JudgeResponse \<Rightarrow> string list \<times> string list" where
  "extractRequirements judge =
     (case verdict judge of
        None \<Rightarrow> ([], [])
      | Some v \<Rightarrow>
          if \<not> is_object v then ([], [])
          else
            (case coalesce (coalesce (field v ''requirements'') (field v ''criteria''))
                    (field v ''rules'') of
               Some (JArr reqs) \<Rightarrow>
                 (let entries = List.map_filter requirement reqs
                  in (map fst (filter snd entries), map fst (filter (\<lambda>e. \<not> snd e) entries)))
             | _ \<Rightarrow> ([], [])))"

definition extractResolutionRuleId :: "JudgeResponse \<Rightarrow> string option" where
  "extractResolutionRuleId judge =
     (case verdict judge of
        None \<Rightarrow> None
      | Some v \<Rightarrow>
          if \<not> is_object v then None
          else asOptionalString (coalesce (field v ''resolution_rule_id'') (field v ''rule_id'')))"

definition buildReport ::
  "(json \<Rightarrow> string) \<Rightarrow> PromptResponse \<Rightarrow> CollectResponse \<Rightarrow> AuditResponse \<Rightarrow> JudgeResponse \<Rightarrow>
     BundleResponse \<Rightarrow> PorReport" where
  "buildReport stringify prompt collect audit judge bundle =
     (let evidenceHighlights = extractEvidenceHighlights (evidence_bundles collect);
          reasoningSummary = extractReasoningSummary stringify (reasoning_trace audit);
          (fulfilled, unfulfilled) = extractRequirements judge;
          resolutionRuleId = extractResolutionRuleId judge
      in \<lparr>outcome = judge_outcome judge,
          confidence = judge_confidence judge,
          resolution_rule_id = resolutionRuleId,
          evidence_highlights = evidenceHighlights,
          requirements_fulfilled = (if length fulfilled > 0 then Some fulfilled else None),
          requirements_unfulfilled = (if length unfulfilled > 0 then Some unfulfilled else None),
          reasoning_summary = reasoningSummary,
          roots = bundle_roots bundle,
          raw = \<lparr>prompt_response = prompt,
                 collect_response = collect,
                 audit_response = audit,
                 judge_response = judge,
                 bundle_response = bundle\<rparr>\<rparr>)"

section \<open>The step sequence (\<^verbatim>\<open>pipeline.ts\<close>)\<close>

record PipelineOptions =
  query :: string
  code :: string
  strict_mode :: "bool option"
  collectors :: "string list option"
  include_raw_content :: "bool option"

text \<open>How a run fails: a call rejects, or a response does not have its step's shape.\<close>

datatype failure = CallFailed thrown | ValidationFailed

text \<open>The payload of each step, built from the options and the earlier responses.\<close>

definition prompt_payload :: "PipelineOptions \<Rightarrow> json" where
  "prompt_payload options =
     obj [(''user_input'', Some (JStr (query options))),
          (''strict_mode'',
             Some (JBool (case strict_mode options of None \<Rightarrow> False | Some b \<Rightarrow> b)))]"

definition collect_payload :: "PipelineOptions \<Rightarrow> PromptResponse \<Rightarrow> json" where
  "collect_payload options promptResponse =
     obj [(''prompt_spec'', prompt_spec promptResponse),
          (''tool_plan'', tool_plan promptResponse),
          (''collectors'',
             Some (JArr (map JStr (case collectors options of
                                     None \<Rightarrow> [''CollectorGeminiGrounded'']
                                   | Some cs \<Rightarrow> cs)))),
          (''include_raw_content'',
             Some (JBool (case include_raw_content options of None \<Rightarrow> False | Some b \<Rightarrow> b)))]"

definition audit_payload :: "PromptResponse \<Rightarrow> CollectResponse \<Rightarrow> json" where
  "audit_payload promptResponse collectResponse =
     obj [(''prompt_spec'', prompt_spec promptResponse),
          (''evidence_bundles'', Some (JArr (evidence_bundles collectResponse)))]"

definition judge_payload :: "PromptResponse \<Rightarrow> CollectResponse \<Rightarrow> AuditResponse \<Rightarrow> json" where
  "judge_payload promptResponse collectResponse auditResponse =
     obj [(''prompt_spec'', prompt_spec promptResponse),
          (''evidence_bundles'', Some (JArr (evidence_bundles collectResponse))),
          (''reasoning_trace'', reasoning_trace auditResponse)]"

definition bundle_payload ::
  "PromptResponse \<Rightarrow> CollectResponse \<Rightarrow> AuditResponse \<Rightarrow> JudgeResponse \<Rightarrow> json" where
  "bundle_payload promptResponse collectResponse auditResponse judgeResponse =
     obj [(''prompt_spec'', prompt_spec promptResponse),
          (''evidence_bundles'', Some (JArr (evidence_bundles collectResponse))),
          (''reasoning_trace'', reasoning_trace auditResponse),
          (''verdict'', verdict judgeResponse)]"

text \<open>
  One step: \<^verbatim>\<open>client.call(path, 'POST', payload)\<close>, then
  \<^verbatim>\<open>schema.parse(extractData(raw))\<close>.  A rejected call and a failed validation both end the
  run.
\<close>

definition gateway_step ::
  "(json \<Rightarrow> string) \<Rightarrow> 's transport \<Rightarrow> string \<Rightarrow> string \<Rightarrow> json \<Rightarrow> (json \<Rightarrow> 'a option) \<Rightarrow> 's \<Rightarrow>
     (failure + 'a) \<times> event list \<times> 's" where
  "gateway_step stringify fetchFn cred path payload schema s =
     (case call stringify fetchFn cred path ''POST'' payload s of
        (Inl err, evs, s') \<Rightarrow> (Inl (CallFailed err), evs, s')
      | (Inr rawBody, evs, s') \<Rightarrow>
          (case schema (extractData rawBody) of
             None \<Rightarrow> (Inl ValidationFailed, evs, s')
           | Some r \<Rightarrow> (Inr r, evs, s')))"

definition runPipeline ::
  "(json \<Rightarrow> string) \<Rightarrow> 's transport \<Rightarrow> PipelineOptions \<Rightarrow> 's \<Rightarrow>
     (failure + PorReport) \<times> event list \<times> 's" where
  "runPipeline stringify fetchFn options s =
     (case gateway_step stringify fetchFn (code options) ''/step/prompt''
             (prompt_payload options) promptResponseSchema s of
        (Inl f, ev1, s1) \<Rightarrow> (Inl f, ev1, s1)
      | (Inr promptResponse, ev1, s1) \<Rightarrow>
     (case gateway_step stringify fetchFn (code options) ''/step/collect''
             (collect_payload options promptResponse) collectResponseSchema s1 of
        (Inl f, ev2, s2) \<Rightarrow> (Inl f, ev1 @ ev2, s2)
      | (Inr collectResponse, ev2, s2) \<Rightarrow>
     (case gateway_step stringify fetchFn (code options) ''/step/audit''
             (audit_payload promptResponse collectResponse) auditResponseSchema s2 of
        (Inl f, ev3, s3) \<Rightarrow> (Inl f, ev1 @ ev2 @ ev3, s3)
      | (Inr auditResponse, ev3, s3) \<Rightarrow>
     (case gateway_step stringify fetchFn (code options) ''/step/judge''
             (judge_payload promptResponse collectResponse auditResponse)
             judgeResponseSchema s3 of
        (Inl f, ev4, s4) \<Rightarrow> (Inl f, ev1 @ ev2 @ ev3 @ ev4, s4)
      | (Inr judgeResponse, ev4, s4) \<Rightarrow>
     (case gateway_step stringify fetchFn (code options) ''/step/bundle''
             (bundle_payload promptResponse collectResponse auditResponse judgeResponse)
             bundleResponseSchema s4 of
        (Inl f, ev5, s5) \<Rightarrow> (Inl f, ev1 @ ev2 @ ev3 @ ev4 @ ev5, s5)
      | (Inr bundleResponse, ev5, s5) \<Rightarrow>
          (Inr (buildReport stringify promptResponse collectResponse auditResponse
                  judgeResponse bundleResponse),
           ev1 @ ev2 @ ev3 @ ev4 @ ev5, s5))))))"

section \<open>Fixtures of the test suite\<close>

text \<open>
  The mocks of \<^verbatim>\<open>client.test.ts\<close> and \<^verbatim>\<open>pipeline.test.ts\<close>, for the examples.  A mock
  transport counts its calls, as \<^verbatim>\<open>vi.fn()\<close> does: its state is the number of calls so far.
  \<open>mock_sequence\<close> gives its outcomes in order and \<open>final\<close> from then on.  The examples
  never look into a request body; they serialise with \<open>stub_stringify\<close>.
\<close>

definition stub_stringify :: "json \<Rightarrow> string" where
  "stub_stringify v = ''{}''"

definition mock_sequence :: "(thrown + response) list \<Rightarrow> thrown + response \<Rightarrow> nat transport" where
  "mock_sequence outcomes final n req =
     ((if n < length outcomes then outcomes ! n else final), n + 1)"

definition error_response :: "nat \<Rightarrow> string \<Rightarrow> response" where
  "error_response st txt =
     \<lparr>ok = False, status = st, text_result = Inr txt,
      json_result = Inl (JsError ''SyntaxError'' ''Unexpected token'')\<rparr>"

definition ok_response :: "json \<Rightarrow> response" where
  "ok_response v = \<lparr>ok = True, status = 200, text_result = Inr [], json_result = Inr v\<rparr>"

text \<open>The responses of \<^verbatim>\<open>pipeline.test.ts\<close>: wrapped in \<^verbatim>\<open>{data: ...}\<close>, and not wrapped.\<close>

definition MOCK_PROMPT_RESPONSE :: json where
  "MOCK_PROMPT_RESPONSE =
     JObj [(''data'', JObj
       [(''market_id'', JStr ''market-123''),
        (''prompt_spec'', JObj [(''id'', JStr ''spec-1''), (''query'', JStr ''Will it rain?'')]),
        (''tool_plan'', JObj [(''tools'', JArr [JStr ''search''])]),
        (''metadata'', JObj [(''source'', JStr ''test'')])])]"

definition MOCK_COLLECT_RESPONSE :: json where
  "MOCK_COLLECT_RESPONSE =
     JObj [(''data'', JObj
       [(''evidence_bundles'', JArr
          [JObj [(''items'', JArr
             [JObj [(''title'', JStr ''Weather Report''),
                    (''source_url'', JStr ''https://weather.example.com''),
                    (''snippet'', JStr ''Rain expected tomorrow'')],
              JObj [(''title'', JStr ''Climate Data''),
                    (''url'', JStr ''https://climate.example.com''),
                    (''text'', JStr ''Precipitation probability 80%'')]])]]),
        (''collectors_used'', JArr [JStr ''CollectorGeminiGrounded'']),
        (''execution_logs'', JArr []),
        (''errors'', JArr [])])]"

definition MOCK_AUDIT_RESPONSE :: json where
  "MOCK_AUDIT_RESPONSE =
     JObj [(''data'', JObj
       [(''reasoning_trace'', JArr
          [JObj [(''description'', JStr ''Analyzed weather forecasts from multiple sources'')],
           JObj [(''description'', JStr ''Cross-referenced with historical precipitation data'')],
           JObj [(''description'', JStr ''Evaluated confidence based on forecast agreement'')]]),
        (''errors'', JArr [])])]"

definition MOCK_JUDGE_RESPONSE :: json where
  "MOCK_JUDGE_RESPONSE =
     JObj [(''data'', JObj
       [(''verdict'', JObj
          [(''resolution_rule_id'', JStr ''RULE-001''),
           (''requirements'', JArr
              [JObj [(''description'', JStr ''Multiple sources agree''), (''fulfilled'', JBool True)],
               JObj [(''description'', JStr ''Recent data available''), (''fulfilled'', JBool True)],
               JObj [(''description'', JStr ''Official source confirms''),
                     (''fulfilled'', JBool False)]])]),
        (''outcome'', JStr ''YES''),
        (''confidence'', JNum 0.85),
        (''errors'', JArr [])])]"

definition MOCK_BUNDLE_RESPONSE :: json where
  "MOCK_BUNDLE_RESPONSE =
     JObj [(''data'', JObj
       [(''por_bundle'', JObj [(''version'', JNum 1), (''steps'', JNum 5)]),
        (''por_root'', JStr ''0xabc123''),
        (''roots'', JObj
           [(''prompt_spec_hash'', JStr ''0xdef456''),
            (''evidence_root'', JStr ''0x789abc''),
            (''reasoning_root'', JStr ''0xdef012''),
            (''por_root'', JStr ''0xabc123'')]),
        (''errors'', JArr [])])]"

definition UNWRAPPED_PROMPT :: json where
  "UNWRAPPED_PROMPT =
     JObj [(''market_id'', JStr ''market-123''),
           (''prompt_spec'', JObj [(''id'', JStr ''spec-1'')]),
           (''tool_plan'', JObj [(''tools'', JArr [])])]"

definition UNWRAPPED_COLLECT :: json where
  "UNWRAPPED_COLLECT =
     JObj [(''evidence_bundles'', JArr []), (''collectors_used'', JArr []), (''errors'', JArr [])]"

definition UNWRAPPED_AUDIT :: json where
  "UNWRAPPED_AUDIT = JObj [(''reasoning_trace'', JArr []), (''errors'', JArr [])]"

definition UNWRAPPED_JUDGE :: json where
  "UNWRAPPED_JUDGE =
     JObj [(''verdict'', JObj []), (''outcome'', JStr ''NO''), (''confidence'', JNum 0.3),
           (''errors'', JArr [])]"

definition UNWRAPPED_BUNDLE :: json where
  "UNWRAPPED_BUNDLE =
     JObj [(''por_bundle'', JObj []),
           (''por_root'', JStr ''0x111''),
           (''roots'', JObj
              [(''prompt_spec_hash'', JStr ''0x222''),
               (''evidence_root'', JStr ''0x333''),
               (''reasoning_root'', JStr ''0x444''),
               (''por_root'', JStr ''0x111'')]),
           (''errors'', JArr [])]"

text \<open>The options of the tests: a query and a credential, nothing else set.\<close>

definition test_options :: "string \<Rightarrow> string \<Rightarrow> PipelineOptions" where
  "test_options q c =
     \<lparr>query = q, code = c, strict_mode = None, collectors = None, include_raw_content = None\<rparr>"

text \<open>
  \<^verbatim>\<open>createMockFetch\<close> of \<^verbatim>\<open>pipeline.test.ts\<close> answers by the path in the request body, which
  it gets with \<^verbatim>\<open>JSON.parse(body).path\<close>.  \<open>path_stringify\<close> stands for the serialiser followed
  by that reading: it writes an envelope as its path.
\<close>

definition path_stringify :: "json \<Rightarrow> string" where
  "path_stringify v = (case field v ''path'' of Some (JStr p) \<Rightarrow> p | _ \<Rightarrow> ''{}'')"

definition createMockFetch :: "(string \<times> json) list \<Rightarrow> nat transport" where
  "createMockFetch responses n req =
     (case map_of responses (body req) of
        None \<Rightarrow> (Inr (error_response 404 (''No mock for path: '' @ body req)), n + 1)
      | Some responseData \<Rightarrow> (Inr (ok_response responseData), n + 1))"

section \<open>Properties of redaction\<close>

lemma compile_escapeRegExp: "compile (escapeRegExp c) = Some (map Lit c)"
  by (induction c) (auto simp: syntax_chars_def backslash_def)

lemma match_here_Lit: "match_here (map Lit c) t = prefix c t"
proof (induction c arbitrary: t)
  case Nil
  show ?case by simp
next
  case (Cons a c)
  show ?case by (cases t) (auto simp: Cons.IH)
qed

lemma includes_sublist: "str_includes t n = sublist n t"
  by (induction t) (auto simp: sublist_Cons_right)

text \<open>A text without an occurrence of the credential is copied.\<close>

lemma replace_global_no_occurrence:
  "\<not> sublist c v \<Longrightarrow> replace_global (map Lit c) rep v = v"
proof (induction v)
  case Nil
  then have "c \<noteq> []" by auto
  then show ?case by (simp add: replace_global.simps [of _ _ "[]"] match_here_Lit)
next
  case (Cons x v)
  from Cons.prems have np: "\<not> prefix c (x # v)" and ns: "\<not> sublist c v"
    by (auto simp: sublist_Cons_right)
  from Cons.IH [OF ns] np show ?case
    by (simp add: replace_global.simps [of _ _ "x # v"] match_here_Lit)
qed

text \<open>The leftmost occurrence is replaced, and the scan goes on behind it.\<close>

lemma prefix_before_occurrence:
  assumes "c \<noteq> []" and "u \<noteq> []" and "prefix c (u @ c @ w)"
  shows "prefix c (u @ butlast c)"
proof -
  have "u @ c @ w = (u @ butlast c) @ (last c # w)"
    using assms(1) by (simp add: append_butlast_last_id [symmetric] del: append_butlast_last_id)
  then have "prefix (u @ butlast c) (u @ c @ w)"
    by (metis prefixI)
  moreover have "length c \<le> length (u @ butlast c)"
    using assms(1,2) by (cases u) auto
  ultimately show ?thesis
    using assms(3) prefix_length_prefix by blast
qed

lemma replace_global_leftmost:
  assumes "c \<noteq> []" and "\<not> sublist c (u @ butlast c)"
  shows "replace_global (map Lit c) rep (u @ c @ w) = u @ rep @ replace_global (map Lit c) rep w"
  using assms(2)
proof (induction u)
  case Nil
  show ?case
    using assms(1) by (simp add: replace_global.simps [of _ _ "c @ w"] match_here_Lit)
next
  case (Cons x u)
  from Cons.prems have ns: "\<not> sublist c (u @ butlast c)"
    by (auto simp: sublist_Cons_right)
  have np: "\<not> prefix c ((x # u) @ c @ w)"
  proof
    assume "prefix c ((x # u) @ c @ w)"
    from prefix_before_occurrence [OF assms(1) _ this] have "prefix c ((x # u) @ butlast c)"
      by simp
    then have "sublist c ((x # u) @ butlast c)"
      by (rule prefix_imp_sublist)
    with Cons.prems show False by simp
  qed
  from Cons.IH [OF ns] np show ?case
    by (simp add: replace_global.simps [of _ _ "x # u @ c @ w"] match_here_Lit)
qed

lemma replace_global_pieces:
  assumes "c \<noteq> []" and "\<forall>u \<in> set us. \<not> sublist c (u @ butlast c)" and "\<not> sublist c v"
  shows "replace_global (map Lit c) rep (concat (map (\<lambda>u. u @ c) us) @ v) =
         concat (map (\<lambda>u. u @ rep) us) @ v"
  using assms(2)
proof (induction us)
  case Nil
  show ?case by (simp add: replace_global_no_occurrence [OF assms(3)])
next
  case (Cons u us)
  then show ?case
    using replace_global_leftmost [OF assms(1), of u rep "concat (map (\<lambda>u. u @ c) us) @ v"]
    by simp
qed

text \<open>Every text splits at the occurrences that the scan finds.\<close>

lemma pieces_exist:
  assumes "c \<noteq> []"
  shows "\<exists>us v. t = concat (map (\<lambda>u. u @ c) us) @ v \<and>
           (\<forall>u \<in> set us. \<not> sublist c (u @ butlast c)) \<and> \<not> sublist c v"
proof (induction t rule: length_induct)
  case (1 t)
  show ?case
  proof (cases "prefix c t")
    case True
    then obtain w where t: "t = c @ w" by (auto simp: prefix_def)
    with assms have "length w < length t" by simp
    with 1 obtain us v where w: "w = concat (map (\<lambda>u. u @ c) us) @ v"
      and us: "\<forall>u \<in> set us. \<not> sublist c (u @ butlast c)" and v: "\<not> sublist c v"
      by blast
    have "\<not> sublist c (butlast c)"
    proof
      assume "sublist c (butlast c)"
      then have "length c \<le> length (butlast c)" using sublist_length_le by blast
      then have "length c \<le> length c - 1" by (simp only: length_butlast)
      moreover have "0 < length c" using assms by simp
      ultimately show False by arith
    qed
    with us have "\<forall>u \<in> set ([] # us). \<not> sublist c (u @ butlast c)" by simp
    moreover have "t = concat (map (\<lambda>u. u @ c) ([] # us)) @ v" using t w by simp
    ultimately show ?thesis using v by blast
  next
    case False
    show ?thesis
    proof (cases t)
      case Nil
      with assms have "\<not> sublist c t" by simp
      moreover have "t = concat (map (\<lambda>u. u @ c) []) @ t" by simp
      ultimately show ?thesis by (metis empty_iff list.set(1))
    next
      case (Cons x t')
      with 1 obtain us v where t': "t' = concat (map (\<lambda>u. u @ c) us) @ v"
        and us: "\<forall>u \<in> set us. \<not> sublist c (u @ butlast c)" and v: "\<not> sublist c v"
        by (metis length_Cons lessI)
      show ?thesis
      proof (cases us)
        case Nil
        with t' v False Cons have "\<not> sublist c t" by (simp add: sublist_Cons_right)
        moreover have "t = concat (map (\<lambda>u. u @ c) []) @ t" by simp
        ultimately show ?thesis by (metis empty_iff list.set(1))
      next
        case (Cons u us')
        have t: "t = (x # u) @ c @ (concat (map (\<lambda>u. u @ c) us') @ v)"
          using \<open>t = x # t'\<close> t' Cons by simp
        have "\<not> prefix c ((x # u) @ butlast c)"
        proof
          assume p: "prefix c ((x # u) @ butlast c)"
          have "t = ((x # u) @ butlast c) @ (last c # concat (map (\<lambda>u. u @ c) us') @ v)"
            using t assms
            by (simp add: append_butlast_last_id [symmetric] del: append_butlast_last_id)
          then have "prefix ((x # u) @ butlast c) t" by (metis prefixI)
          with p have "prefix c t" by (rule prefix_order.trans)
          with False show False by simp
        qed
        moreover have "\<not> sublist c (u @ butlast c)" using us Cons by simp
        ultimately have "\<not> sublist c ((x # u) @ butlast c)"
          by (simp add: sublist_Cons_right)
        with us Cons have "\<forall>w \<in> set ((x # u) # us'). \<not> sublist c (w @ butlast c)" by simp
        moreover have "t = concat (map (\<lambda>u. u @ c) ((x # u) # us')) @ v" using t by simp
        ultimately show ?thesis using v by blast
      qed
    qed
  qed
qed

lemma redactCode_pieces:
  assumes "c \<noteq> []" and "\<forall>u \<in> set us. \<not> str_includes (u @ butlast c) c"
    and "\<not> str_includes v c"
  shows "redactCode (concat (map (\<lambda>u. u @ c) us) @ v) c =
         concat (map (\<lambda>u. u @ ''[REDACTED]'') us) @ v"
proof -
  from assms(2) have us: "\<forall>u \<in> set us. \<not> sublist c (u @ butlast c)"
    by (simp add: includes_sublist)
  from assms(3) have v: "\<not> sublist c v" by (simp add: includes_sublist)
  from assms(1) show ?thesis
    by (simp add: redactCode_def compile_escapeRegExp REDACTED_def
        replace_global_pieces [OF assms(1) us v])
qed

subsection \<open>Claim C1\<close>

text \<open>
  C1.  \<^verbatim>\<open>redactCode(t, c)\<close> returns \<open>t\<close> unchanged when the credential \<open>c\<close> is empty.  For a
  credential that is not empty, the pattern built from the escaped credential is the
  credential itself, character by character (syntax characters included), and every
  occurrence of it that the left-to-right scan finds is replaced with the marker
  \<^verbatim>\<open>[REDACTED]\<close>: when the text is cut as \<open>u1 c u2 c ... un c v\<close>, where the \<open>c\<close> after each
  \<open>ui\<close> is the first occurrence from there on and \<open>v\<close> has none, the result is
  \<open>u1 m u2 m ... un m v\<close> with the marker \<open>m\<close>.  Every text can be cut so; an occurrence
  that overlaps an earlier one is not counted again (the usual reading of replacing all
  occurrences).
\<close>

theorem redactCode_replaces_every_occurrence:
  fixes c t v :: string and us :: "string list"
  shows "redactCode t [] = t \<and>
    (c \<noteq> [] \<longrightarrow> compile (escapeRegExp c) = Some (map Lit c)) \<and>
    (c \<noteq> [] \<longrightarrow> (\<forall>u \<in> set us. \<not> str_includes (u @ butlast c) c) \<longrightarrow> \<not> str_includes v c \<longrightarrow>
       redactCode (concat (map (\<lambda>u. u @ c) us) @ v) c =
         concat (map (\<lambda>u. u @ ''[REDACTED]'') us) @ v) \<and>
    (c \<noteq> [] \<longrightarrow>
       (\<exists>ws w. t = concat (map (\<lambda>u. u @ c) ws) @ w \<and>
          (\<forall>u \<in> set ws. \<not> str_includes (u @ butlast c) c) \<and> \<not> str_includes w c))"
proof (intro conjI impI)
  show "redactCode t [] = t" by (simp add: redactCode_def)
next
  show "compile (escapeRegExp c) = Some (map Lit c)" by (rule compile_escapeRegExp)
next
  assume ne: "c \<noteq> []" and us: "\<forall>u \<in> set us. \<not> str_includes (u @ butlast c) c"
    and v: "\<not> str_includes v c"
  from us have us': "\<forall>u \<in> set us. \<not> sublist c (u @ butlast c)"
    by (simp add: includes_sublist)
  from v have v': "\<not> sublist c v" by (simp add: includes_sublist)
  from ne show "redactCode (concat (map (\<lambda>u. u @ c) us) @ v) c =
      concat (map (\<lambda>u. u @ ''[REDACTED]'') us) @ v"
    by (simp add: redactCode_def compile_escapeRegExp REDACTED_def
        replace_global_pieces [OF ne us' v'])
next
  assume ne: "c \<noteq> []"
  from pieces_exist [OF ne, of t] show "\<exists>ws w. t = concat (map (\<lambda>u. u @ c) ws) @ w \<and>
      (\<forall>u \<in> set ws. \<not> str_includes (u @ butlast c) c) \<and> \<not> str_includes w c"
    by (simp add: includes_sublist)
qed

theorem redactCode_replaces_every_occurrence_witness:
  "redactCode ''no code here'' [] = ''no code here'' \<and>
   compile (escapeRegExp ''a+b.c'') =
     Some [Lit CHR ''a'', Lit CHR ''+'', Lit CHR ''b'', Lit CHR ''.'', Lit CHR ''c''] \<and>
   redactCode ''code a+b.c here'' ''a+b.c'' = ''code [REDACTED] here'' \<and>
   redactCode ''cosZMi appears twice: cosZMi'' ''cosZMi'' =
     ''[REDACTED] appears twice: [REDACTED]'' \<and>
   redactCode ''aaa'' ''aa'' = ''[REDACTED]a''"
  using
    redactCode_replaces_every_occurrence
      [of "''no code here''" "''a+b.c''" "[''code '']" "'' here''"]
    redactCode_replaces_every_occurrence
      [of "[]" "''cosZMi''" "[[], '' appears twice: '']" "[]"]
    redactCode_replaces_every_occurrence [of "[]" "''aa''" "[[]]" "''a''"]
  by simp

section \<open>Properties of the gateway client\<close>

lemma str_includes_middle: "str_includes (a @ b @ c) b"
  by (simp add: includes_sublist sublist_appendI)

lemma startsWith_gateway_message: "startsWith (gateway_message st path b) ''Gateway returned''"
  by (simp add: startsWith_def gateway_message_def)

text \<open>The four ways a turn of the loop can go.\<close>

lemma try_block_fatal:
  "\<not> ok r \<Longrightarrow> \<not> isTransientError (status r) \<Longrightarrow>
   try_block cred path (Inr r) =
     Throw (new_Error (gateway_message (status r) path
       (redactCode (case text_result r of Inl _ \<Rightarrow> [] | Inr b \<Rightarrow> b) cred)))"
  by (simp add: try_block_def new_Error_def startsWith_gateway_message)

lemma try_block_transient:
  "\<not> ok r \<Longrightarrow> isTransientError (status r) \<Longrightarrow>
   try_block cred path (Inr r) =
     Continue (new_Error (gateway_message (status r) path
       (redactCode (case text_result r of Inl _ \<Rightarrow> [] | Inr b \<Rightarrow> b) cred)))"
  by (simp add: try_block_def)

lemma try_block_success:
  "ok r \<Longrightarrow> json_result r = Inr d \<Longrightarrow> try_block cred path (Inr r) = Return d"
  by (simp add: try_block_def)

lemma try_block_network:
  "isNetworkError (JsError n m) \<Longrightarrow> \<not> startsWith m ''Gateway returned'' \<Longrightarrow>
   try_block cred path (Inl (JsError n m)) =
     Continue (new_Error (redactCode (''Network error calling '' @ path @ '': '' @ m) cred))"
  by (simp add: try_block_def)

lemma transient_not_ok: "wf_response r \<Longrightarrow> isTransientError (status r) \<Longrightarrow> \<not> ok r"
  by (auto simp: wf_response_def isTransientError_def)

text \<open>One unfolding of the loop for each way.\<close>

lemma call_loop_Return:
  "attempt < MAX_RETRIES \<Longrightarrow> fetchFn s (gateway_request stringify env) = (fetched, s') \<Longrightarrow>
   try_block cred path fetched = Return d \<Longrightarrow>
   call_loop stringify fetchFn cred path env attempt le s =
     (Inr d, (if attempt > 0 then [Sleep (backoff attempt)] else []) @
               [Fetch (gateway_request stringify env)], s')"
  by (subst call_loop.simps) (simp add: Let_def)

lemma call_loop_Throw:
  "attempt < MAX_RETRIES \<Longrightarrow> fetchFn s (gateway_request stringify env) = (fetched, s') \<Longrightarrow>
   try_block cred path fetched = Throw e \<Longrightarrow>
   call_loop stringify fetchFn cred path env attempt le s =
     (Inl e, (if attempt > 0 then [Sleep (backoff attempt)] else []) @
               [Fetch (gateway_request stringify env)], s')"
  by (subst call_loop.simps) (simp add: Let_def)

lemma call_loop_Continue:
  "attempt < MAX_RETRIES \<Longrightarrow> fetchFn s (gateway_request stringify env) = (fetched, s') \<Longrightarrow>
   try_block cred path fetched = Continue e \<Longrightarrow>
   call_loop stringify fetchFn cred path env attempt le s =
     (case call_loop stringify fetchFn cred path env (attempt + 1) (Some e) s' of
        (res, evs, s'') \<Rightarrow>
          (res, (if attempt > 0 then [Sleep (backoff attempt)] else []) @
                  Fetch (gateway_request stringify env) # evs, s''))"
  by (subst call_loop.simps) (simp add: Let_def)

lemma call_loop_exhausted:
  "call_loop stringify fetchFn cred path env MAX_RETRIES (Some e) s = (Inl e, [], s)"
  by (subst call_loop.simps) simp

text \<open>Three turns that go on, by a transient status or a network error.\<close>

lemma call_three_turns:
  fixes fetchFn :: "'s transport"
  assumes "fetchFn s0 (gateway_request stringify env) = (f1, s1)"
    and "try_block cred path f1 = Continue e1"
    and "fetchFn s1 (gateway_request stringify env) = (f2, s2)"
    and "try_block cred path f2 = Continue e2"
    and "fetchFn s2 (gateway_request stringify env) = (f3, s3)"
  shows "call_loop stringify fetchFn cred path env 0 None s0 =
    (case try_block cred path f3 of
       Return d \<Rightarrow> Inr d
     | Throw e \<Rightarrow> Inl e
     | Continue e \<Rightarrow> Inl e,
     [Fetch (gateway_request stringify env), Sleep 2000,
      Fetch (gateway_request stringify env), Sleep 4000,
      Fetch (gateway_request stringify env)], s3)"
proof -
  have third: "call_loop stringify fetchFn cred path env (Suc (Suc 0)) (Some e2) s2 =
    (case try_block cred path f3 of Return d \<Rightarrow> Inr d | Throw e \<Rightarrow> Inl e | Continue e \<Rightarrow> Inl e,
     [Sleep 4000, Fetch (gateway_request stringify env)], s3)"
  proof (cases "try_block cred path f3")
    case (Return d)
    with call_loop_Return [where fetchFn = fetchFn and s = s2 and stringify = stringify
        and env = env and attempt = "Suc (Suc 0)", OF _ assms(5) Return]
    show ?thesis by (simp add: MAX_RETRIES_def backoff_def)
  next
    case (Throw e)
    with call_loop_Throw [where fetchFn = fetchFn and s = s2 and stringify = stringify
        and env = env and attempt = "Suc (Suc 0)", OF _ assms(5) Throw]
    show ?thesis by (simp add: MAX_RETRIES_def backoff_def)
  next
    case (Continue e)
    have "call_loop stringify fetchFn cred path env (Suc (Suc (Suc 0))) (Some e) s3 =
        (Inl e, [], s3)"
      using call_loop_exhausted [of stringify fetchFn cred path env e s3]
      by (simp add: MAX_RETRIES_def numeral_3_eq_3)
    with Continue call_loop_Continue [where fetchFn = fetchFn and s = s2 and stringify = stringify
        and env = env and attempt = "Suc (Suc 0)", OF _ assms(5) Continue]
    show ?thesis by (simp add: MAX_RETRIES_def backoff_def)
  qed
  have second: "call_loop stringify fetchFn cred path env (Suc 0) (Some e1) s1 =
    (case try_block cred path f3 of Return d \<Rightarrow> Inr d | Throw e \<Rightarrow> Inl e | Continue e \<Rightarrow> Inl e,
     [Sleep 2000, Fetch (gateway_request stringify env), Sleep 4000,
      Fetch (gateway_request stringify env)], s3)"
    using call_loop_Continue [where fetchFn = fetchFn and s = s1 and stringify = stringify
        and env = env and attempt = "Suc 0", OF _ assms(3) assms(4)] third
    by (simp add: MAX_RETRIES_def backoff_def)
  show ?thesis
    using call_loop_Continue [where fetchFn = fetchFn and s = s0 and stringify = stringify
        and env = env and attempt = 0, OF _ assms(1) assms(2)] second
    by (simp add: MAX_RETRIES_def)
qed

text \<open>
  The effects of any call: one to three turns, each a transport call, with a suspension
  before every turn but the first.
\<close>

lemma call_loop_events:
  "attempt \<le> MAX_RETRIES \<Longrightarrow>
   \<exists>n. attempt \<le> n \<and> n \<le> MAX_RETRIES \<and> (attempt < MAX_RETRIES \<longrightarrow> attempt < n) \<and>
     fst (snd (call_loop stringify fetchFn cred path env attempt le s)) =
       concat (map (turn_events (gateway_request stringify env)) [attempt..<n])"
proof (induction stringify fetchFn cred path env attempt le s rule: call_loop.induct)
  case (1 stringify fetchFn cred path env attempt le s)
  let ?req = "gateway_request stringify env"
  show ?case
  proof (cases "attempt < MAX_RETRIES")
    case False
    with "1.prems" have "attempt = MAX_RETRIES" by simp
    then show ?thesis
      by (subst call_loop.simps) (auto intro!: exI [of _ MAX_RETRIES])
  next
    case True
    obtain fetched s' where f: "fetchFn s ?req = (fetched, s')" by (cases "fetchFn s ?req")
    have one: "concat (map (turn_events ?req) [attempt..<Suc attempt]) =
        (if attempt > 0 then [Sleep (backoff attempt)] else []) @ [Fetch ?req]"
      by (simp add: turn_events_def backoff_def)
    show ?thesis
    proof (cases "try_block cred path fetched")
      case (Return d)
      from call_loop_Return [where fetchFn = fetchFn and s = s and stringify = stringify
          and env = env, OF True f Return] one True
      show ?thesis
        by (intro exI [of _ "Suc attempt"]) (simp del: upt_Suc)
    next
      case (Throw e)
      from call_loop_Throw [where fetchFn = fetchFn and s = s and stringify = stringify
          and env = env, OF True f Throw] one True
      show ?thesis
        by (intro exI [of _ "Suc attempt"]) (simp del: upt_Suc)
    next
      case (Continue e)
      from True have le': "attempt + 1 \<le> MAX_RETRIES" by simp
      from "1.IH" [OF True refl refl f [symmetric] Continue le']
      obtain n where n: "attempt + 1 \<le> n" "n \<le> MAX_RETRIES"
        and ev: "fst (snd (call_loop stringify fetchFn cred path env (attempt + 1) (Some e) s')) =
          concat (map (turn_events ?req) [attempt + 1..<n])"
        by blast
      from n have "[attempt..<n] = attempt # [attempt + 1..<n]"
        by (simp add: upt_conv_Cons)
      with ev one n True show ?thesis
        by (intro exI [of _ n])
          (simp add: call_loop_Continue [where fetchFn = fetchFn and s = s
              and stringify = stringify and env = env, OF True f Continue] case_prod_beta)
    qed
  qed
qed

lemma fetches_append: "fetches (xs @ ys) = fetches xs @ fetches ys"
  by (induction xs rule: fetches.induct) simp_all

lemma fetches_turns: "fetches (concat (map (turn_events req) ks)) = replicate (length ks) req"
  by (induction ks) (simp_all add: fetches_append turn_events_def)

subsection \<open>Claim C2\<close>

text \<open>
  C2, as stated, fails: with the attempt index counted from 0, the suspension before
  the second attempt (index 1) is 2000 ms and the one before the third (index 2) is
  4000 ms, not 1000 ms and 2000 ms.  Here a transport that always answers 500 is called
  as in the test \<^verbatim>\<open>throws after max retries exhausted\<close>.
\<close>

theorem call_backoff_counterexample:
  "sleeps (fst (snd (call stub_stringify
      (mock_sequence [] (Inr (error_response 500 ''Server Error'')))
      ''code'' ''/step/prompt'' ''POST'' (JObj []) 0))) = [2000, 4000] \<and>
   sleeps (fst (snd (call stub_stringify
      (mock_sequence [] (Inr (error_response 500 ''Server Error'')))
      ''code'' ''/step/prompt'' ''POST'' (JObj []) 0))) \<noteq> [1000, 2000]"
proof -
  let ?F = "mock_sequence [] (Inr (error_response 500 ''Server Error''))"
  let ?env = "buildEnvelope stub_stringify ''code'' ''/step/prompt'' ''POST'' (JObj [])"
  have f: "?F n (gateway_request stub_stringify ?env) =
      (Inr (error_response 500 ''Server Error''), n + 1)" for n
    by (simp add: mock_sequence_def)
  have t: "try_block ''code'' ''/step/prompt'' (Inr (error_response 500 ''Server Error'')) =
      Continue (new_Error (gateway_message 500 ''/step/prompt''
        (redactCode ''Server Error'' ''code'')))"
    using try_block_transient [of "error_response 500 ''Server Error''" "''code''" "''/step/prompt''"]
    by (simp add: error_response_def isTransientError_def)
  from call_three_turns [where fetchFn = ?F and stringify = stub_stringify and env = ?env,
      OF f t f t f]
  show ?thesis by (simp add: call_def)
qed

text \<open>
  C2, amended.  The effects of every call are those of \<open>n\<close> turns, \<open>n\<close> from 1 to 3
  (attempt indices \<open>0\<close> to \<open>n - 1\<close>): turn \<open>k\<close> is one transport call, and for \<open>k > 0\<close> a
  suspension of \<open>min (1000 * 2 ^ k) 10000\<close> ms before it.  These are 2000 ms before the second
  attempt and 4000 ms before the third, 6000 ms before the final attempt in all.
\<close>

theorem call_backoff_before_each_retry:
  fixes fetchFn :: "'s transport"
  shows "(\<exists>n. 1 \<le> n \<and> n \<le> 3 \<and>
      fst (snd (call stringify fetchFn cred path meth payload s)) =
        concat (map (\<lambda>k. (if k > 0 then [Sleep (min (1000 * 2 ^ k) 10000)] else []) @
            [Fetch (gateway_request stringify
               (buildEnvelope stringify cred path meth payload))]) [0..<n])) \<and>
    backoff 1 = 2000 \<and> backoff 2 = 4000 \<and> backoff 1 + backoff 2 = 6000"
proof -
  from call_loop_events [of 0 stringify fetchFn cred path
      "buildEnvelope stringify cred path meth payload" None s]
  obtain n where "0 < n" "n \<le> MAX_RETRIES"
    and "fst (snd (call stringify fetchFn cred path meth payload s)) =
      concat (map (turn_events (gateway_request stringify
        (buildEnvelope stringify cred path meth payload))) [0..<n])"
    by (auto simp: call_def MAX_RETRIES_def)
  then have "1 \<le> n \<and> n \<le> 3 \<and>
      fst (snd (call stringify fetchFn cred path meth payload s)) =
        concat (map (\<lambda>k. (if k > 0 then [Sleep (min (1000 * 2 ^ k) 10000)] else []) @
            [Fetch (gateway_request stringify
               (buildEnvelope stringify cred path meth payload))]) [0..<n])"
    by (simp add: MAX_RETRIES_def turn_events_def [abs_def])
  then show ?thesis by (auto simp: backoff_def)
qed

subsection \<open>Claim C4\<close>

text \<open>
  C4.  When the first response has a non-success status that is not transient (not
  \<open>\<ge> 500\<close>, 429 or 408), the call makes exactly one transport call and rejects at once with
  an error whose message holds the status and the body with the credential redacted
  (the empty body when the body cannot be read).
\<close>

theorem call_fatal_status_raises_immediately:
  fixes fetchFn :: "'s transport"
  assumes "fetchFn s (gateway_request stringify
             (buildEnvelope stringify cred path meth payload)) = (Inr r, s')"
    and "\<not> ok r" and "\<not> isTransientError (status r)"
  shows "call stringify fetchFn cred path meth payload s =
     (Inl (JsError ''Error''
        (''Gateway returned '' @ showNat (status r) @ '' for '' @ path @ '': '' @
           redactCode (case text_result r of Inl _ \<Rightarrow> [] | Inr b \<Rightarrow> b) cred)),
      [Fetch (gateway_request stringify (buildEnvelope stringify cred path meth payload))],
      s')"
  using call_loop_Throw [where fetchFn = fetchFn and s = s and stringify = stringify
      and attempt = 0, OF _ assms(1) try_block_fatal [OF assms(2,3)]]
  by (simp add: call_def MAX_RETRIES_def new_Error_def gateway_message_def)

theorem call_fatal_status_raises_immediately_witness:
  "call stub_stringify
     (mock_sequence [] (Inr (error_response 400 ''Bad Request with code secret123'')))
     ''secret123'' ''/step/prompt'' ''POST'' (JObj []) 0 =
   (Inl (JsError ''Error''
      ''Gateway returned 400 for /step/prompt: Bad Request with code [REDACTED]''),
    [Fetch (gateway_request stub_stringify
       (buildEnvelope stub_stringify ''secret123'' ''/step/prompt'' ''POST'' (JObj [])))],
    1)"
proof -
  have r: "redactCode ''Bad Request with code secret123'' ''secret123'' =
      ''Bad Request with code [REDACTED]''"
    using redactCode_pieces [of "''secret123''" "[''Bad Request with code '']" "[]"]
    by simp
  have s: "showNat 400 = ''400''"
    by (simp add: showNat.simps [of 400] showNat.simps [of 40] showNat.simps [of 4] digit_def)
  show ?thesis
    using call_fatal_status_raises_immediately [where stringify = stub_stringify
        and fetchFn = "mock_sequence [] (Inr (error_response 400 ''Bad Request with code secret123''))"
        and s = 0 and cred = "''secret123''" and path = "''/step/prompt''" and meth = "''POST''"
        and payload = "JObj []" and r = "error_response 400 ''Bad Request with code secret123''"
        and s' = 1]
    by (simp add: mock_sequence_def error_response_def isTransientError_def r s)
qed

subsection \<open>Claim C5\<close>

text \<open>
  C5.  When the transport answers three times in a row with a transient status
  (\<open>\<ge> 500\<close>, 429 or 408; the responses being responses of the Fetch API, whose \<^verbatim>\<open>ok\<close> flag
  is off for such a status), the call makes exactly three transport calls, with a
  suspension before the second and the third, and then rejects with the error of the
  last response; its message contains the last status.
\<close>

theorem call_transient_exhausts_retries:
  fixes fetchFn :: "'s transport"
  assumes "fetchFn sa (gateway_request stringify
             (buildEnvelope stringify cred path meth payload)) = (Inr ra, sb)"
    and "fetchFn sb (gateway_request stringify
             (buildEnvelope stringify cred path meth payload)) = (Inr rb, sc)"
    and "fetchFn sc (gateway_request stringify
             (buildEnvelope stringify cred path meth payload)) = (Inr rc, sd)"
    and "wf_response ra" and "wf_response rb" and "wf_response rc"
    and "isTransientError (status ra)" and "isTransientError (status rb)"
    and "isTransientError (status rc)"
  shows "call stringify fetchFn cred path meth payload sa =
     (Inl (JsError ''Error''
        (''Gateway returned '' @ showNat (status rc) @ '' for '' @ path @ '': '' @
           redactCode (case text_result rc of Inl _ \<Rightarrow> [] | Inr b \<Rightarrow> b) cred)),
      [Fetch (gateway_request stringify (buildEnvelope stringify cred path meth payload)),
       Sleep 2000,
       Fetch (gateway_request stringify (buildEnvelope stringify cred path meth payload)),
       Sleep 4000,
       Fetch (gateway_request stringify (buildEnvelope stringify cred path meth payload))],
      sd) \<and>
    str_includes
      (''Gateway returned '' @ showNat (status rc) @ '' for '' @ path @ '': '' @
         redactCode (case text_result rc of Inl _ \<Rightarrow> [] | Inr b \<Rightarrow> b) cred)
      (showNat (status rc))"
proof -
  note t1 = try_block_transient [OF transient_not_ok [OF assms(4) assms(7)] assms(7)]
  note t2 = try_block_transient [OF transient_not_ok [OF assms(5) assms(8)] assms(8)]
  note t3 = try_block_transient [OF transient_not_ok [OF assms(6) assms(9)] assms(9)]
  from call_three_turns [where fetchFn = fetchFn and stringify = stringify and cred = cred
      and path = path, OF assms(1) t1 assms(2) t2 assms(3)]
  have "call stringify fetchFn cred path meth payload sa =
     (Inl (JsError ''Error''
        (''Gateway returned '' @ showNat (status rc) @ '' for '' @ path @ '': '' @
           redactCode (case text_result rc of Inl _ \<Rightarrow> [] | Inr b \<Rightarrow> b) cred)),
      [Fetch (gateway_request stringify (buildEnvelope stringify cred path meth payload)),
       Sleep 2000,
       Fetch (gateway_request stringify (buildEnvelope stringify cred path meth payload)),
       Sleep 4000,
       Fetch (gateway_request stringify (buildEnvelope stringify cred path meth payload))],
      sd)"
    by (simp add: call_def t3 new_Error_def gateway_message_def)
  moreover have "str_includes
      (''Gateway returned '' @ showNat (status rc) @ '' for '' @ path @ '': '' @
         redactCode (case text_result rc of Inl _ \<Rightarrow> [] | Inr b \<Rightarrow> b) cred)
      (showNat (status rc))"
    by (rule str_includes_middle)
  ultimately show ?thesis by simp
qed

theorem call_transient_exhausts_retries_witness:
  "call stub_stringify (mock_sequence [] (Inr (error_response 500 ''Server Error'')))
     ''code'' ''/step/prompt'' ''POST'' (JObj []) 0 =
   (Inl (JsError ''Error'' ''Gateway returned 500 for /step/prompt: Server Error''),
    [Fetch (gateway_request stub_stringify
       (buildEnvelope stub_stringify ''code'' ''/step/prompt'' ''POST'' (JObj []))),
     Sleep 2000,
     Fetch (gateway_request stub_stringify
       (buildEnvelope stub_stringify ''code'' ''/step/prompt'' ''POST'' (JObj []))),
     Sleep 4000,
     Fetch (gateway_request stub_stringify
       (buildEnvelope stub_stringify ''code'' ''/step/prompt'' ''POST'' (JObj [])))],
    3) \<and>
   str_includes ''Gateway returned 500 for /step/prompt: Server Error'' ''500''"
proof -
  have r: "redactCode ''Server Error'' ''code'' = ''Server Error''"
    using redactCode_pieces [of "''code''" "[]" "''Server Error''"] by simp
  have s: "showNat 500 = ''500''"
    by (simp add: showNat.simps [of 500] showNat.simps [of 50] showNat.simps [of 5] digit_def)
  show ?thesis
    using call_transient_exhausts_retries [where stringify = stub_stringify
        and fetchFn = "mock_sequence [] (Inr (error_response 500 ''Server Error''))"
        and cred = "''code''" and path = "''/step/prompt''" and meth = "''POST''"
        and payload = "JObj []"
        and sa = 0 and sb = 1 and sc = 2 and sd = 3
        and ra = "error_response 500 ''Server Error''"
        and rb = "error_response 500 ''Server Error''"
        and rc = "error_response 500 ''Server Error''"]
    by (simp add: mock_sequence_def error_response_def isTransientError_def wf_response_def r s)
qed

subsection \<open>Claim C6\<close>

text \<open>
  C6.  When the transport answers with the statuses 500, 500 and 200 (responses of the
  Fetch API) and the body of the third decodes, the call makes exactly three transport
  calls, suspends before the second and before the third, and resolves to the decoded
  body of the third response.
\<close>

theorem call_retries_then_succeeds:
  fixes fetchFn :: "'s transport"
  assumes "fetchFn sa (gateway_request stringify
             (buildEnvelope stringify cred path meth payload)) = (Inr ra, sb)"
    and "fetchFn sb (gateway_request stringify
             (buildEnvelope stringify cred path meth payload)) = (Inr rb, sc)"
    and "fetchFn sc (gateway_request stringify
             (buildEnvelope stringify cred path meth payload)) = (Inr rc, sd)"
    and "wf_response ra" and "wf_response rb" and "wf_response rc"
    and "map status [ra, rb, rc] = [500, 500, 200]"
    and "json_result rc = Inr data"
  shows "call stringify fetchFn cred path meth payload sa =
     (Inr data,
      [Fetch (gateway_request stringify (buildEnvelope stringify cred path meth payload)),
       Sleep (backoff 1),
       Fetch (gateway_request stringify (buildEnvelope stringify cred path meth payload)),
       Sleep (backoff 2),
       Fetch (gateway_request stringify (buildEnvelope stringify cred path meth payload))],
      sd)"
proof -
  from assms(7) have st: "status ra = 500" "status rb = 500" "status rc = 200" by simp_all
  have tr: "isTransientError 500" by (simp add: isTransientError_def)
  from assms(4) st(1) have n1: "\<not> ok ra" by (simp add: wf_response_def)
  from assms(5) st(2) have n2: "\<not> ok rb" by (simp add: wf_response_def)
  from assms(6) st(3) have o3: "ok rc" by (simp add: wf_response_def)
  from tr st have tr1: "isTransientError (status ra)" and tr2: "isTransientError (status rb)"
    by simp_all
  from call_three_turns [where fetchFn = fetchFn and stringify = stringify and cred = cred
      and path = path, OF assms(1) try_block_transient [OF n1 tr1]
        assms(2) try_block_transient [OF n2 tr2] assms(3)]
  show ?thesis
    by (simp add: call_def try_block_success [OF o3 assms(8)] backoff_def)
qed

theorem call_retries_then_succeeds_witness:
  "call stub_stringify
     (mock_sequence [Inr (error_response 500 ''Internal Server Error''),
                     Inr (error_response 500 ''Internal Server Error'')]
        (Inr (ok_response (JObj [(''success'', JBool True)]))))
     ''code'' ''/step/prompt'' ''POST'' (JObj []) 0 =
   (Inr (JObj [(''success'', JBool True)]),
    [Fetch (gateway_request stub_stringify
       (buildEnvelope stub_stringify ''code'' ''/step/prompt'' ''POST'' (JObj []))),
     Sleep 2000,
     Fetch (gateway_request stub_stringify
       (buildEnvelope stub_stringify ''code'' ''/step/prompt'' ''POST'' (JObj []))),
     Sleep 4000,
     Fetch (gateway_request stub_stringify
       (buildEnvelope stub_stringify ''code'' ''/step/prompt'' ''POST'' (JObj [])))],
    3)"
  using call_retries_then_succeeds [where stringify = stub_stringify
      and fetchFn = "mock_sequence [Inr (error_response 500 ''Internal Server Error''),
                     Inr (error_response 500 ''Internal Server Error'')]
        (Inr (ok_response (JObj [(''success'', JBool True)])))"
      and cred = "''code''" and path = "''/step/prompt''" and meth = "''POST''"
      and payload = "JObj []"
      and sa = 0 and sb = 1 and sc = 2 and sd = 3
      and ra = "error_response 500 ''Internal Server Error''"
      and rb = "error_response 500 ''Internal Server Error''"
      and rc = "ok_response (JObj [(''success'', JBool True)])"
      and data = "JObj [(''success'', JBool True)]"]
  by (simp add: mock_sequence_def error_response_def ok_response_def wf_response_def backoff_def)

subsection \<open>Claim C7\<close>

text \<open>
  C7, as stated, fails: an exception that \<^verbatim>\<open>isNetworkError\<close> classifies as a network error
  is not retried when its message starts with \<^verbatim>\<open>Gateway returned\<close>.  The \<^verbatim>\<open>catch\<close> block
  passes such an error on, as it does the error thrown for a fatal status.  Here the
  first transport call rejects with such an error and the second would succeed: the
  call makes one transport call and rejects.
\<close>

theorem call_network_error_counterexample:
  "isNetworkError (JsError ''Error'' ''Gateway returned no data: socket hang up'') \<and>
   call stub_stringify
     (mock_sequence [Inl (JsError ''Error'' ''Gateway returned no data: socket hang up'')]
        (Inr (ok_response (JObj [(''recovered'', JBool True)]))))
     ''code'' ''/test'' ''POST'' (JObj []) 0 =
   (Inl (JsError ''Error'' ''Gateway returned no data: socket hang up''),
    [Fetch (gateway_request stub_stringify
       (buildEnvelope stub_stringify ''code'' ''/test'' ''POST'' (JObj [])))],
    1)"
proof -
  let ?e = "JsError ''Error'' ''Gateway returned no data: socket hang up''"
  let ?F = "mock_sequence [Inl ?e] (Inr (ok_response (JObj [(''recovered'', JBool True)])))"
  have net: "isNetworkError ?e"
    by (simp add: toLowerCase_def lower_char_def)
  have t: "try_block ''code'' ''/test'' (Inl ?e) = Throw ?e"
    by (simp add: try_block_def startsWith_def)
  have f: "?F 0 (gateway_request stub_stringify
      (buildEnvelope stub_stringify ''code'' ''/test'' ''POST'' (JObj []))) = (Inl ?e, 1)"
    by (simp add: mock_sequence_def)
  from call_loop_Throw [where fetchFn = ?F and s = 0 and stringify = stub_stringify
      and attempt = 0 and cred = "''code''" and path = "''/test''", OF _ f t]
  have "call stub_stringify ?F ''code'' ''/test'' ''POST'' (JObj []) 0 =
    (Inl ?e, [Fetch (gateway_request stub_stringify
       (buildEnvelope stub_stringify ''code'' ''/test'' ''POST'' (JObj [])))], 1)"
    by (simp add: call_def MAX_RETRIES_def)
  with net show ?thesis by simp
qed

text \<open>
  C7, amended.  When the first transport call rejects with an \<^verbatim>\<open>Error\<close> that
  \<^verbatim>\<open>isNetworkError\<close> classifies as a network error and whose message does not start with
  \<^verbatim>\<open>Gateway returned\<close>, and the second answers with a success status and a body that
  decodes, the call makes exactly two transport calls, with a suspension between them,
  and resolves to the decoded body.
\<close>

theorem call_network_error_then_success:
  fixes fetchFn :: "'s transport"
  assumes "fetchFn sa (gateway_request stringify
             (buildEnvelope stringify cred path meth payload)) = (Inl (JsError n m), sb)"
    and "isNetworkError (JsError n m)"
    and "\<not> startsWith m ''Gateway returned''"
    and "fetchFn sb (gateway_request stringify
             (buildEnvelope stringify cred path meth payload)) = (Inr r, sc)"
    and "ok r" and "json_result r = Inr data"
  shows "call stringify fetchFn cred path meth payload sa =
     (Inr data,
      [Fetch (gateway_request stringify (buildEnvelope stringify cred path meth payload)),
       Sleep (backoff 1),
       Fetch (gateway_request stringify (buildEnvelope stringify cred path meth payload))],
      sc)"
proof -
  have second: "call_loop stringify fetchFn cred path
      (buildEnvelope stringify cred path meth payload) (Suc 0)
      (Some (new_Error (redactCode (''Network error calling '' @ path @ '': '' @ m) cred))) sb =
    (Inr data,
     [Sleep (backoff 1),
      Fetch (gateway_request stringify (buildEnvelope stringify cred path meth payload))],
     sc)"
    using call_loop_Return [where fetchFn = fetchFn and s = sb and stringify = stringify
        and attempt = "Suc 0", OF _ assms(4) try_block_success [OF assms(5,6)]]
    by (simp add: MAX_RETRIES_def)
  show ?thesis
    using call_loop_Continue [where fetchFn = fetchFn and s = sa and stringify = stringify
        and attempt = 0, OF _ assms(1) try_block_network [OF assms(2,3)]] second
    by (simp add: call_def MAX_RETRIES_def)
qed

theorem call_network_error_then_success_witness:
  "call stub_stringify
     (mock_sequence [Inl (JsError ''Error'' ''fetch failed: ECONNREFUSED'')]
        (Inr (ok_response (JObj [(''recovered'', JBool True)]))))
     ''code'' ''/test'' ''POST'' (JObj []) 0 =
   (Inr (JObj [(''recovered'', JBool True)]),
    [Fetch (gateway_request stub_stringify
       (buildEnvelope stub_stringify ''code'' ''/test'' ''POST'' (JObj []))),
     Sleep 2000,
     Fetch (gateway_request stub_stringify
       (buildEnvelope stub_stringify ''code'' ''/test'' ''POST'' (JObj [])))],
    2)"
  using call_network_error_then_success [where stringify = stub_stringify
      and fetchFn = "mock_sequence [Inl (JsError ''Error'' ''fetch failed: ECONNREFUSED'')]
        (Inr (ok_response (JObj [(''recovered'', JBool True)])))"
      and cred = "''code''" and path = "''/test''" and meth = "''POST''"
      and payload = "JObj []" and sa = 0 and sb = 1 and sc = 2
      and n = "''Error''" and m = "''fetch failed: ECONNREFUSED''"
      and r = "ok_response (JObj [(''recovered'', JBool True)])"
      and data = "JObj [(''recovered'', JBool True)]"]
  by (simp add: mock_sequence_def ok_response_def startsWith_def toLowerCase_def
      lower_char_def backoff_def)

subsection \<open>Claim C8\<close>

text \<open>
  C8.  Whatever the logical method (\<^verbatim>\<open>GET\<close> included), the transport and its answers,
  every call makes at least one and at most three transport calls, and each of them is the
  same request: method \<^verbatim>\<open>POST\<close>, the fixed gateway URL, the one header
  \<^verbatim>\<open>Content-Type: application/json\<close>, and as body the serialised envelope with the keys
  \<^verbatim>\<open>code\<close>, \<^verbatim>\<open>post_data\<close>, \<^verbatim>\<open>path\<close>, \<^verbatim>\<open>method\<close>, where \<^verbatim>\<open>post_data\<close> is the string that
  serialising the payload gives and \<^verbatim>\<open>method\<close> is the logical method.
\<close>

theorem call_always_posts_envelope:
  fixes fetchFn :: "'s transport"
  shows "\<exists>n. 1 \<le> n \<and> n \<le> 3 \<and>
    fetches (fst (snd (call stringify fetchFn cred path meth payload s))) =
      replicate n
        \<lparr>url = ''https://interface.cournot.ai/play/polymarket/ai_data'',
         http_method = ''POST'',
         headers = [(''Content-Type'', ''application/json'')],
         body = stringify (JObj [(''code'', JStr cred),
                                 (''post_data'', JStr (stringify payload)),
                                 (''path'', JStr path),
                                 (''method'', JStr meth)]),
         timeout_ms = 300000\<rparr>"
proof -
  from call_loop_events [of 0 stringify fetchFn cred path
      "buildEnvelope stringify cred path meth payload" None s]
  obtain n where n: "0 < n" "n \<le> MAX_RETRIES"
    and ev: "fst (snd (call stringify fetchFn cred path meth payload s)) =
      concat (map (turn_events (gateway_request stringify
        (buildEnvelope stringify cred path meth payload))) [0..<n])"
    by (auto simp: call_def MAX_RETRIES_def)
  from n ev show ?thesis
    by (intro exI [of _ n])
      (simp add: fetches_turns MAX_RETRIES_def gateway_request_def buildEnvelope_def
        GATEWAY_URL_def TIMEOUT_MS_def)
qed

section \<open>Properties of the report\<close>

lemma length_extractReasoningSummary: "length (extractReasoningSummary stringify trace) \<le> 10"
proof (induction stringify trace rule: extractReasoningSummary.induct)
  case (1 stringify trace)
  show ?case
  proof (cases "truthy trace")
    case False
    then show ?thesis by (subst extractReasoningSummary.simps) simp
  next
    case True
    show ?thesis
    proof (cases trace)
      case None
      with True show ?thesis by simp
    next
      case (Some t)
      show ?thesis
      proof (cases t)
        case (JObj fs)
        let ?steps = "coalesce (coalesce (map_of fs ''steps'') (map_of fs ''trace''))
            (map_of fs ''reasoning_steps'')"
        show ?thesis
        proof (cases "\<exists>steps. ?steps = Some (JArr steps)")
          case True
          then obtain steps where st: "?steps = Some (JArr steps)" by blast
          from "1.IH" [OF _ Some JObj st] \<open>truthy trace\<close> st Some JObj show ?thesis
            by (subst extractReasoningSummary.simps) simp
        next
          case False
          with Some JObj show ?thesis
            by (subst extractReasoningSummary.simps)
              (auto split: option.splits json.splits)
        qed
      qed (use Some in \<open>subst extractReasoningSummary.simps, simp\<close>)+
    qed
  qed
qed

lemma length_extractEvidenceHighlights: "length (extractEvidenceHighlights bundles) \<le> 10"
  by (simp add: extractEvidenceHighlights_def)

text \<open>
  The bound is met: the 20 items of the test \<^verbatim>\<open>limits evidence highlights to 10\<close> give
  10 highlights.
\<close>

lemma item_highlights_object: "length (item_highlights (JObj fs)) = 1"
  by (simp add: item_highlights_def)

lemma extractEvidenceHighlights_twenty_items:
  "length (extractEvidenceHighlights
     [JObj [(''items'', JArr (map (\<lambda>i. JObj [(''title'', JStr (''Item '' @ showNat i)),
                                              (''snippet'', JStr (''Snippet '' @ showNat i))])
                                [0..<20]))]]) = 10"
  by (simp add: extractEvidenceHighlights_def bundle_highlights_def coalesce_def
      length_concat comp_def item_highlights_object sum_list_triv)

subsection \<open>Claim C10\<close>

text \<open>
  C10.  Whatever the five responses are, the report that \<^verbatim>\<open>buildReport\<close> makes has at most
  10 evidence highlights and at most 10 entries in its reasoning summary.
\<close>

theorem buildReport_at_most_ten:
  "length (evidence_highlights (buildReport stringify prompt collect audit judge bundle)) \<le> 10 \<and>
   length (reasoning_summary (buildReport stringify prompt collect audit judge bundle)) \<le> 10"
  by (simp add: buildReport_def Let_def case_prod_beta
      length_extractEvidenceHighlights length_extractReasoningSummary)

section \<open>Properties of the step sequence\<close>

text \<open>A call whose first response is a success with a body that decodes.\<close>

lemma call_first_success:
  fixes fetchFn :: "'s transport"
  assumes "fetchFn s (gateway_request stringify
             (buildEnvelope stringify cred path meth payload)) = (Inr r, s')"
    and "ok r" and "json_result r = Inr b"
  shows "call stringify fetchFn cred path meth payload s =
     (Inr b, [Fetch (gateway_request stringify (buildEnvelope stringify cred path meth payload))],
      s')"
  using call_loop_Return [where fetchFn = fetchFn and s = s and stringify = stringify
      and attempt = 0, OF _ assms(1) try_block_success [OF assms(2,3)]]
  by (simp add: call_def MAX_RETRIES_def)

lemma gateway_step_success:
  fixes fetchFn :: "'s transport"
  assumes "fetchFn s (gateway_request stringify
             (buildEnvelope stringify cred path ''POST'' payload)) = (Inr r, s')"
    and "ok r" and "json_result r = Inr b" and "schema (extractData b) = Some x"
  shows "gateway_step stringify fetchFn cred path payload schema s =
     (Inr x,
      [Fetch (gateway_request stringify (buildEnvelope stringify cred path ''POST'' payload))],
      s')"
  by (simp add: gateway_step_def
      call_first_success [where fetchFn = fetchFn and s = s, OF assms(1,2,3)] assms(4))

lemma runPipeline_success:
  fixes fetchFn :: "'s transport"
  assumes "gateway_step stringify fetchFn (code options) ''/step/prompt''
             (prompt_payload options) promptResponseSchema sA = (Inr promptR, evA, sB)"
    and "gateway_step stringify fetchFn (code options) ''/step/collect''
             (collect_payload options promptR) collectResponseSchema sB = (Inr collectR, evB, sC)"
    and "gateway_step stringify fetchFn (code options) ''/step/audit''
             (audit_payload promptR collectR) auditResponseSchema sC = (Inr auditR, evC, sD)"
    and "gateway_step stringify fetchFn (code options) ''/step/judge''
             (judge_payload promptR collectR auditR) judgeResponseSchema sD =
           (Inr judgeR, evD, sE)"
    and "gateway_step stringify fetchFn (code options) ''/step/bundle''
             (bundle_payload promptR collectR auditR judgeR) bundleResponseSchema sE =
           (Inr bundleR, evE, sF)"
  shows "runPipeline stringify fetchFn options sA =
     (Inr (buildReport stringify promptR collectR auditR judgeR bundleR),
      evA @ evB @ evC @ evD @ evE, sF)"
  by (simp add: runPipeline_def assms)

text \<open>What a validated response says about the body it was read from.\<close>

lemma judgeResponseSchema_fields:
  assumes "judgeResponseSchema v = Some r"
  shows "field v ''outcome'' = Some (JStr (judge_outcome r))"
    and "field v ''confidence'' = Some (JNum (judge_confidence r))"
proof -
  from assms obtain fs where v: "v = JObj fs"
    by (cases v) (simp_all add: judgeResponseSchema_def)
  from assms v have "z_string (map_of fs ''outcome'') = Some (judge_outcome r)"
    and "z_number (map_of fs ''confidence'') = Some (judge_confidence r)"
    by (auto simp: judgeResponseSchema_def split: option.splits)
  then show "field v ''outcome'' = Some (JStr (judge_outcome r))"
    and "field v ''confidence'' = Some (JNum (judge_confidence r))"
    using v by (auto elim: z_string.elims z_number.elims)
qed

lemma rootsSchema_fields:
  assumes "rootsSchema v = Some r"
  shows "\<exists>ro. v = Some ro \<and>
     field ro ''prompt_spec_hash'' = Some (JStr (prompt_spec_hash r)) \<and>
     field ro ''evidence_root'' = Some (JStr (evidence_root r)) \<and>
     field ro ''reasoning_root'' = Some (JStr (reasoning_root r)) \<and>
     field ro ''por_root'' = Some (JStr (por_root r))"
proof -
  from assms obtain fs where v: "v = Some (JObj fs)"
    by (auto simp: rootsSchema_def elim: z_object.elims split: option.splits)
  from assms v have "z_string (map_of fs ''prompt_spec_hash'') = Some (prompt_spec_hash r)"
    and "z_string (map_of fs ''evidence_root'') = Some (evidence_root r)"
    and "z_string (map_of fs ''reasoning_root'') = Some (reasoning_root r)"
    and "z_string (map_of fs ''por_root'') = Some (por_root r)"
    by (auto simp: rootsSchema_def split: option.splits)
  then show ?thesis
    using v by (auto elim: z_string.elims)
qed

lemma bundleResponseSchema_fields:
  assumes "bundleResponseSchema v = Some r"
  shows "\<exists>ro. field v ''roots'' = Some ro \<and>
     field ro ''prompt_spec_hash'' = Some (JStr (prompt_spec_hash (bundle_roots r))) \<and>
     field ro ''evidence_root'' = Some (JStr (evidence_root (bundle_roots r))) \<and>
     field ro ''reasoning_root'' = Some (JStr (reasoning_root (bundle_roots r))) \<and>
     field ro ''por_root'' = Some (JStr (por_root (bundle_roots r)))"
proof -
  from assms obtain fs where v: "v = JObj fs"
    by (cases v) (simp_all add: bundleResponseSchema_def)
  from assms v have "rootsSchema (map_of fs ''roots'') = Some (bundle_roots r)"
    by (auto simp: bundleResponseSchema_def split: option.splits)
  from rootsSchema_fields [OF this] v show ?thesis by simp
qed

lemma buildReport_fields:
  "outcome (buildReport stringify p c a j b) = judge_outcome j"
  "confidence (buildReport stringify p c a j b) = judge_confidence j"
  "roots (buildReport stringify p c a j b) = bundle_roots b"
  by (simp_all add: buildReport_def Let_def case_prod_beta)

lemma extractData_unwrapped: "field b ''data'' = None \<Longrightarrow> extractData b = b"
  by (cases b) simp_all

lemma extractData_wrapped: "field b ''data'' = Some v \<Longrightarrow> extractData b = v"
  by (cases b) simp_all

text \<open>
  Five steps that each succeed at the first transport call with a body of the right
  shape.
\<close>

lemma runPipeline_five_successes:
  fixes fetchFn :: "'s transport"
  assumes "fetchFn sA (gateway_request stringify (buildEnvelope stringify (code options)
             ''/step/prompt'' ''POST'' (prompt_payload options))) = (Inr rA, sB)"
    and "ok rA" and "json_result rA = Inr bA"
    and "promptResponseSchema (extractData bA) = Some promptR"
    and "fetchFn sB (gateway_request stringify (buildEnvelope stringify (code options)
             ''/step/collect'' ''POST'' (collect_payload options promptR))) = (Inr rB, sC)"
    and "ok rB" and "json_result rB = Inr bB"
    and "collectResponseSchema (extractData bB) = Some collectR"
    and "fetchFn sC (gateway_request stringify (buildEnvelope stringify (code options)
             ''/step/audit'' ''POST'' (audit_payload promptR collectR))) = (Inr rC, sD)"
    and "ok rC" and "json_result rC = Inr bC"
    and "auditResponseSchema (extractData bC) = Some auditR"
    and "fetchFn sD (gateway_request stringify (buildEnvelope stringify (code options)
             ''/step/judge'' ''POST'' (judge_payload promptR collectR auditR))) = (Inr rD, sE)"
    and "ok rD" and "json_result rD = Inr bD"
    and "judgeResponseSchema (extractData bD) = Some judgeR"
    and "fetchFn sE (gateway_request stringify (buildEnvelope stringify (code options)
             ''/step/bundle'' ''POST'' (bundle_payload promptR collectR auditR judgeR))) =
           (Inr rE, sF)"
    and "ok rE" and "json_result rE = Inr bE"
    and "bundleResponseSchema (extractData bE) = Some bundleR"
  shows "runPipeline stringify fetchFn options sA =
     (Inr (buildReport stringify promptR collectR auditR judgeR bundleR),
      [Fetch (gateway_request stringify (buildEnvelope stringify (code options)
         ''/step/prompt'' ''POST'' (prompt_payload options))),
       Fetch (gateway_request stringify (buildEnvelope stringify (code options)
         ''/step/collect'' ''POST'' (collect_payload options promptR))),
       Fetch (gateway_request stringify (buildEnvelope stringify (code options)
         ''/step/audit'' ''POST'' (audit_payload promptR collectR))),
       Fetch (gateway_request stringify (buildEnvelope stringify (code options)
         ''/step/judge'' ''POST'' (judge_payload promptR collectR auditR))),
       Fetch (gateway_request stringify (buildEnvelope stringify (code options)
         ''/step/bundle'' ''POST'' (bundle_payload promptR collectR auditR judgeR)))],
      sF)"
  using runPipeline_success [where fetchFn = fetchFn and stringify = stringify,
      OF gateway_step_success [where fetchFn = fetchFn and s = sA and schema = promptResponseSchema,
           OF assms(1,2,3,4)]
         gateway_step_success [where fetchFn = fetchFn and s = sB and schema = collectResponseSchema,
           OF assms(5,6,7,8)]
         gateway_step_success [where fetchFn = fetchFn and s = sC and schema = auditResponseSchema,
           OF assms(9,10,11,12)]
         gateway_step_success [where fetchFn = fetchFn and s = sD and schema = judgeResponseSchema,
           OF assms(13,14,15,16)]
         gateway_step_success [where fetchFn = fetchFn and s = sE and schema = bundleResponseSchema,
           OF assms(17,18,19,20)]]
  by simp

subsection \<open>Claim C3\<close>

text \<open>
  C3.  When the transport answers each of the five step requests, in the order prompt,
  collect, audit, judge, bundle, with a success whose body (wrapped or not) has the
  shape of its step, \<^verbatim>\<open>runPipeline\<close> makes exactly five transport calls, to the paths
  \<^verbatim>\<open>/step/prompt\<close>, \<^verbatim>\<open>/step/collect\<close>, \<^verbatim>\<open>/step/audit\<close>, \<^verbatim>\<open>/step/judge\<close>, \<^verbatim>\<open>/step/bundle\<close> in this
  order, and returns a report whose outcome and confidence are those of the judge
  response and whose four roots are those of the bundle response.
\<close>

theorem runPipeline_five_calls_in_order:
  fixes fetchFn :: "'s transport"
  assumes "fetchFn sA (gateway_request stringify (buildEnvelope stringify (code options)
             ''/step/prompt'' ''POST'' (prompt_payload options))) = (Inr rA, sB)"
    and "ok rA" and "json_result rA = Inr bA"
    and "promptResponseSchema (extractData bA) = Some promptR"
    and "fetchFn sB (gateway_request stringify (buildEnvelope stringify (code options)
             ''/step/collect'' ''POST'' (collect_payload options promptR))) = (Inr rB, sC)"
    and "ok rB" and "json_result rB = Inr bB"
    and "collectResponseSchema (extractData bB) = Some collectR"
    and "fetchFn sC (gateway_request stringify (buildEnvelope stringify (code options)
             ''/step/audit'' ''POST'' (audit_payload promptR collectR))) = (Inr rC, sD)"
    and "ok rC" and "json_result rC = Inr bC"
    and "auditResponseSchema (extractData bC) = Some auditR"
    and "fetchFn sD (gateway_request stringify (buildEnvelope stringify (code options)
             ''/step/judge'' ''POST'' (judge_payload promptR collectR auditR))) = (Inr rD, sE)"
    and "ok rD" and "json_result rD = Inr bD"
    and "judgeResponseSchema (extractData bD) = Some judgeR"
    and "fetchFn sE (gateway_request stringify (buildEnvelope stringify (code options)
             ''/step/bundle'' ''POST'' (bundle_payload promptR collectR auditR judgeR))) =
           (Inr rE, sF)"
    and "ok rE" and "json_result rE = Inr bE"
    and "bundleResponseSchema (extractData bE) = Some bundleR"
  shows "\<exists>report.
     runPipeline stringify fetchFn options sA =
       (Inr report,
        [Fetch (gateway_request stringify (buildEnvelope stringify (code options)
           ''/step/prompt'' ''POST'' (prompt_payload options))),
         Fetch (gateway_request stringify (buildEnvelope stringify (code options)
           ''/step/collect'' ''POST'' (collect_payload options promptR))),
         Fetch (gateway_request stringify (buildEnvelope stringify (code options)
           ''/step/audit'' ''POST'' (audit_payload promptR collectR))),
         Fetch (gateway_request stringify (buildEnvelope stringify (code options)
           ''/step/judge'' ''POST'' (judge_payload promptR collectR auditR))),
         Fetch (gateway_request stringify (buildEnvelope stringify (code options)
           ''/step/bundle'' ''POST'' (bundle_payload promptR collectR auditR judgeR)))],
        sF) \<and>
     field (extractData bD) ''outcome'' = Some (JStr (outcome report)) \<and>
     field (extractData bD) ''confidence'' = Some (JNum (confidence report)) \<and>
     (\<exists>ro. field (extractData bE) ''roots'' = Some ro \<and>
        field ro ''prompt_spec_hash'' = Some (JStr (prompt_spec_hash (roots report))) \<and>
        field ro ''evidence_root'' = Some (JStr (evidence_root (roots report))) \<and>
        field ro ''reasoning_root'' = Some (JStr (reasoning_root (roots report))) \<and>
        field ro ''por_root'' = Some (JStr (por_root (roots report))))"
proof -
  let ?report = "buildReport stringify promptR collectR auditR judgeR bundleR"
  note run = runPipeline_five_successes [where fetchFn = fetchFn and stringify = stringify
      and sA = sA and sB = sB and sC = sC and sD = sD and sE = sE, OF assms]
  have "field (extractData bD) ''outcome'' = Some (JStr (outcome ?report))"
    and "field (extractData bD) ''confidence'' = Some (JNum (confidence ?report))"
    using judgeResponseSchema_fields [OF assms(16)] by (simp_all add: buildReport_fields)
  moreover have "\<exists>ro. field (extractData bE) ''roots'' = Some ro \<and>
        field ro ''prompt_spec_hash'' = Some (JStr (prompt_spec_hash (roots ?report))) \<and>
        field ro ''evidence_root'' = Some (JStr (evidence_root (roots ?report))) \<and>
        field ro ''reasoning_root'' = Some (JStr (reasoning_root (roots ?report))) \<and>
        field ro ''por_root'' = Some (JStr (por_root (roots ?report)))"
    using bundleResponseSchema_fields [OF assms(20)] by (simp add: buildReport_fields)
  ultimately show ?thesis
    using run by (intro exI [of _ ?report]) simp
qed

text \<open>
  The run of the test \<^verbatim>\<open>executes all 5 steps in order and returns a report\<close>: outcome
  \<^verbatim>\<open>YES\<close>, confidence 0.85, the four roots of the bundle response, and the five paths in
  order.
\<close>

theorem runPipeline_five_calls_in_order_witness:
  "\<exists>report.
     runPipeline path_stringify
       (createMockFetch
          [(''/step/prompt'', MOCK_PROMPT_RESPONSE), (''/step/collect'', MOCK_COLLECT_RESPONSE),
           (''/step/audit'', MOCK_AUDIT_RESPONSE), (''/step/judge'', MOCK_JUDGE_RESPONSE),
           (''/step/bundle'', MOCK_BUNDLE_RESPONSE)])
       (test_options ''Will it rain?'' ''testCode'') 0 =
     (Inr report,
      map (\<lambda>p. Fetch \<lparr>url = GATEWAY_URL, http_method = ''POST'',
                       headers = [(''Content-Type'', ''application/json'')],
                       body = p, timeout_ms = TIMEOUT_MS\<rparr>)
        [''/step/prompt'', ''/step/collect'', ''/step/audit'', ''/step/judge'', ''/step/bundle''],
      5) \<and>
     outcome report = ''YES'' \<and> confidence report = 0.85 \<and>
     prompt_spec_hash (roots report) = ''0xdef456'' \<and>
     evidence_root (roots report) = ''0x789abc'' \<and>
     reasoning_root (roots report) = ''0xdef012'' \<and>
     por_root (roots report) = ''0xabc123''"
proof -
  let ?F = "createMockFetch
      [(''/step/prompt'', MOCK_PROMPT_RESPONSE), (''/step/collect'', MOCK_COLLECT_RESPONSE),
       (''/step/audit'', MOCK_AUDIT_RESPONSE), (''/step/judge'', MOCK_JUDGE_RESPONSE),
       (''/step/bundle'', MOCK_BUNDLE_RESPONSE)]"
  let ?opts = "test_options ''Will it rain?'' ''testCode''"
  have req: "gateway_request path_stringify (buildEnvelope path_stringify c p ''POST'' x) =
      \<lparr>url = GATEWAY_URL, http_method = ''POST'',
       headers = [(''Content-Type'', ''application/json'')], body = p,
       timeout_ms = TIMEOUT_MS\<rparr>" for c p x
    by (simp add: gateway_request_def buildEnvelope_def path_stringify_def)
  have fA: "?F n (gateway_request path_stringify
      (buildEnvelope path_stringify c ''/step/prompt'' ''POST'' x)) =
      (Inr (ok_response MOCK_PROMPT_RESPONSE), n + 1)" for n c x
    by (simp add: req createMockFetch_def)
  have fB: "?F n (gateway_request path_stringify
      (buildEnvelope path_stringify c ''/step/collect'' ''POST'' x)) =
      (Inr (ok_response MOCK_COLLECT_RESPONSE), n + 1)" for n c x
    by (simp add: req createMockFetch_def)
  have fC: "?F n (gateway_request path_stringify
      (buildEnvelope path_stringify c ''/step/audit'' ''POST'' x)) =
      (Inr (ok_response MOCK_AUDIT_RESPONSE), n + 1)" for n c x
    by (simp add: req createMockFetch_def)
  have fD: "?F n (gateway_request path_stringify
      (buildEnvelope path_stringify c ''/step/judge'' ''POST'' x)) =
      (Inr (ok_response MOCK_JUDGE_RESPONSE), n + 1)" for n c x
    by (simp add: req createMockFetch_def)
  have fE: "?F n (gateway_request path_stringify
      (buildEnvelope path_stringify c ''/step/bundle'' ''POST'' x)) =
      (Inr (ok_response MOCK_BUNDLE_RESPONSE), n + 1)" for n c x
    by (simp add: req createMockFetch_def)
  have okr: "ok (ok_response v)" "json_result (ok_response v) = Inr v" for v
    by (simp_all add: ok_response_def)
  obtain promptR where pA: "promptResponseSchema (extractData MOCK_PROMPT_RESPONSE) = Some promptR"
    by (simp add: MOCK_PROMPT_RESPONSE_def promptResponseSchema_def)
  obtain collectR where pB:
      "collectResponseSchema (extractData MOCK_COLLECT_RESPONSE) = Some collectR"
    by (simp add: MOCK_COLLECT_RESPONSE_def collectResponseSchema_def)
  obtain auditR where pC: "auditResponseSchema (extractData MOCK_AUDIT_RESPONSE) = Some auditR"
    by (simp add: MOCK_AUDIT_RESPONSE_def auditResponseSchema_def)
  obtain judgeR where pD: "judgeResponseSchema (extractData MOCK_JUDGE_RESPONSE) = Some judgeR"
    by (simp add: MOCK_JUDGE_RESPONSE_def judgeResponseSchema_def)
  obtain bundleR where pE: "bundleResponseSchema (extractData MOCK_BUNDLE_RESPONSE) = Some bundleR"
    by (simp add: MOCK_BUNDLE_RESPONSE_def bundleResponseSchema_def rootsSchema_def)
  from runPipeline_five_calls_in_order [where fetchFn = ?F and stringify = path_stringify
      and options = ?opts and sA = 0 and sB = 1 and sC = 2 and sD = 3 and sE = 4 and sF = 5,
      OF _ okr _ _ okr _ _ okr _ _ okr _ _ okr _, OF _ pA _ pB _ pC _ pD _ pE]
    fA [of 0] fB [of 1] fC [of 2] fD [of 3] fE [of 4]
  obtain report where run: "runPipeline path_stringify ?F ?opts 0 =
      (Inr report,
       map (\<lambda>p. Fetch \<lparr>url = GATEWAY_URL, http_method = ''POST'',
                       headers = [(''Content-Type'', ''application/json'')],
                       body = p, timeout_ms = TIMEOUT_MS\<rparr>)
        [''/step/prompt'', ''/step/collect'', ''/step/audit'', ''/step/judge'', ''/step/bundle''],
       5)"
    and oc: "field (extractData MOCK_JUDGE_RESPONSE) ''outcome'' = Some (JStr (outcome report))"
    and cf: "field (extractData MOCK_JUDGE_RESPONSE) ''confidence'' =
        Some (JNum (confidence report))"
    and ro: "\<exists>ro. field (extractData MOCK_BUNDLE_RESPONSE) ''roots'' = Some ro \<and>
        field ro ''prompt_spec_hash'' = Some (JStr (prompt_spec_hash (roots report))) \<and>
        field ro ''evidence_root'' = Some (JStr (evidence_root (roots report))) \<and>
        field ro ''reasoning_root'' = Some (JStr (reasoning_root (roots report))) \<and>
        field ro ''por_root'' = Some (JStr (por_root (roots report)))"
    by (auto simp: req)
  from oc cf have "outcome report = ''YES''" "confidence report = 0.85"
    by (simp_all add: MOCK_JUDGE_RESPONSE_def)
  moreover from ro have "prompt_spec_hash (roots report) = ''0xdef456''"
    "evidence_root (roots report) = ''0x789abc''"
    "reasoning_root (roots report) = ''0xdef012''"
    "por_root (roots report) = ''0xabc123''"
    by (auto simp: MOCK_BUNDLE_RESPONSE_def)
  ultimately show ?thesis
    using run by (intro exI [of _ report]) simp
qed

subsection \<open>Claim C9\<close>

text \<open>
  C9.  \<^verbatim>\<open>extractData\<close> gives the value of the field \<^verbatim>\<open>data\<close> when the body is an object with
  such a field, and the body itself otherwise.  Each step validates \<^verbatim>\<open>extractData\<close> of the
  body that its call resolved to.  So when every step is answered with a body that has
  no field \<^verbatim>\<open>data\<close> and has, at the top level, the shape of its step, every validation
  succeeds: the run makes its five calls and returns a report, read from the top-level
  fields.
\<close>

theorem extractData_unwraps_before_validation:
  fixes fetchFn :: "'s transport" and schema :: "json \<Rightarrow> 'a option"
  shows
    "(field b ''data'' = Some v \<longrightarrow> extractData b = v) \<and>
     (field b ''data'' = None \<longrightarrow> extractData b = b) \<and>
     (call stringify fetchFn cred path ''POST'' payload s = (Inr rawBody, evs, s') \<longrightarrow>
        gateway_step stringify fetchFn cred path payload schema s =
          (case schema (extractData rawBody) of
             None \<Rightarrow> (Inl ValidationFailed, evs, s')
           | Some x \<Rightarrow> (Inr x, evs, s'))) \<and>
     (fetchFn sA (gateway_request stringify (buildEnvelope stringify (code options)
         ''/step/prompt'' ''POST'' (prompt_payload options))) = (Inr rA, sB) \<longrightarrow>
      ok rA \<longrightarrow> json_result rA = Inr bA \<longrightarrow> field bA ''data'' = None \<longrightarrow>
      promptResponseSchema bA = Some promptR \<longrightarrow>
      fetchFn sB (gateway_request stringify (buildEnvelope stringify (code options)
         ''/step/collect'' ''POST'' (collect_payload options promptR))) = (Inr rB, sC) \<longrightarrow>
      ok rB \<longrightarrow> json_result rB = Inr bB \<longrightarrow> field bB ''data'' = None \<longrightarrow>
      collectResponseSchema bB = Some collectR \<longrightarrow>
      fetchFn sC (gateway_request stringify (buildEnvelope stringify (code options)
         ''/step/audit'' ''POST'' (audit_payload promptR collectR))) = (Inr rC, sD) \<longrightarrow>
      ok rC \<longrightarrow> json_result rC = Inr bC \<longrightarrow> field bC ''data'' = None \<longrightarrow>
      auditResponseSchema bC = Some auditR \<longrightarrow>
      fetchFn sD (gateway_request stringify (buildEnvelope stringify (code options)
         ''/step/judge'' ''POST'' (judge_payload promptR collectR auditR))) = (Inr rD, sE) \<longrightarrow>
      ok rD \<longrightarrow> json_result rD = Inr bD \<longrightarrow> field bD ''data'' = None \<longrightarrow>
      judgeResponseSchema bD = Some judgeR \<longrightarrow>
      fetchFn sE (gateway_request stringify (buildEnvelope stringify (code options)
         ''/step/bundle'' ''POST'' (bundle_payload promptR collectR auditR judgeR))) =
        (Inr rE, sF) \<longrightarrow>
      ok rE \<longrightarrow> json_result rE = Inr bE \<longrightarrow> field bE ''data'' = None \<longrightarrow>
      bundleResponseSchema bE = Some bundleR \<longrightarrow>
      (\<exists>report.
         runPipeline stringify fetchFn options sA =
           (Inr report,
            [Fetch (gateway_request stringify (buildEnvelope stringify (code options)
               ''/step/prompt'' ''POST'' (prompt_payload options))),
             Fetch (gateway_request stringify (buildEnvelope stringify (code options)
               ''/step/collect'' ''POST'' (collect_payload options promptR))),
             Fetch (gateway_request stringify (buildEnvelope stringify (code options)
               ''/step/audit'' ''POST'' (audit_payload promptR collectR))),
             Fetch (gateway_request stringify (buildEnvelope stringify (code options)
               ''/step/judge'' ''POST'' (judge_payload promptR collectR auditR))),
             Fetch (gateway_request stringify (buildEnvelope stringify (code options)
               ''/step/bundle'' ''POST'' (bundle_payload promptR collectR auditR judgeR)))],
            sF) \<and>
         field bD ''outcome'' = Some (JStr (outcome report)) \<and>
         field bD ''confidence'' = Some (JNum (confidence report)) \<and>
         (\<exists>ro. field bE ''roots'' = Some ro \<and>
            field ro ''por_root'' = Some (JStr (por_root (roots report))))))"
proof (intro conjI impI)
  assume "field b ''data'' = Some v"
  then show "extractData b = v" by (rule extractData_wrapped)
next
  assume "field b ''data'' = None"
  then show "extractData b = b" by (rule extractData_unwrapped)
next
  assume "call stringify fetchFn cred path ''POST'' payload s = (Inr rawBody, evs, s')"
  then show "gateway_step stringify fetchFn cred path payload schema s =
      (case schema (extractData rawBody) of
         None \<Rightarrow> (Inl ValidationFailed, evs, s')
       | Some x \<Rightarrow> (Inr x, evs, s'))"
    by (simp add: gateway_step_def)
next
  assume fA: "fetchFn sA (gateway_request stringify (buildEnvelope stringify (code options)
         ''/step/prompt'' ''POST'' (prompt_payload options))) = (Inr rA, sB)"
    and oA: "ok rA" and jA: "json_result rA = Inr bA" and uA: "field bA ''data'' = None"
    and pA: "promptResponseSchema bA = Some promptR"
    and fB: "fetchFn sB (gateway_request stringify (buildEnvelope stringify (code options)
         ''/step/collect'' ''POST'' (collect_payload options promptR))) = (Inr rB, sC)"
    and oB: "ok rB" and jB: "json_result rB = Inr bB" and uB: "field bB ''data'' = None"
    and pB: "collectResponseSchema bB = Some collectR"
    and fC: "fetchFn sC (gateway_request stringify (buildEnvelope stringify (code options)
         ''/step/audit'' ''POST'' (audit_payload promptR collectR))) = (Inr rC, sD)"
    and oC: "ok rC" and jC: "json_result rC = Inr bC" and uC: "field bC ''data'' = None"
    and pC: "auditResponseSchema bC = Some auditR"
    and fD: "fetchFn sD (gateway_request stringify (buildEnvelope stringify (code options)
         ''/step/judge'' ''POST'' (judge_payload promptR collectR auditR))) = (Inr rD, sE)"
    and oD: "ok rD" and jD: "json_result rD = Inr bD" and uD: "field bD ''data'' = None"
    and pD: "judgeResponseSchema bD = Some judgeR"
    and fE: "fetchFn sE (gateway_request stringify (buildEnvelope stringify (code options)
         ''/step/bundle'' ''POST'' (bundle_payload promptR collectR auditR judgeR))) =
        (Inr rE, sF)"
    and oE: "ok rE" and jE: "json_result rE = Inr bE" and uE: "field bE ''data'' = None"
    and pE: "bundleResponseSchema bE = Some bundleR"
  let ?report = "buildReport stringify promptR collectR auditR judgeR bundleR"
  from pA pB pC pD pE
  have vA: "promptResponseSchema (extractData bA) = Some promptR"
    and vB: "collectResponseSchema (extractData bB) = Some collectR"
    and vC: "auditResponseSchema (extractData bC) = Some auditR"
    and vD: "judgeResponseSchema (extractData bD) = Some judgeR"
    and vE: "bundleResponseSchema (extractData bE) = Some bundleR"
    by (simp_all add: extractData_unwrapped uA uB uC uD uE)
  note run = runPipeline_five_successes [where fetchFn = fetchFn and stringify = stringify
      and sA = sA and sB = sB and sC = sC and sD = sD and sE = sE,
      OF fA oA jA vA fB oB jB vB fC oC jC vC fD oD jD vD fE oE jE vE]
  have "field bD ''outcome'' = Some (JStr (outcome ?report))"
    and "field bD ''confidence'' = Some (JNum (confidence ?report))"
    using judgeResponseSchema_fields [OF pD] by (simp_all add: buildReport_fields)
  moreover have "\<exists>ro. field bE ''roots'' = Some ro \<and>
      field ro ''por_root'' = Some (JStr (por_root (roots ?report)))"
    using bundleResponseSchema_fields [OF pE] by (auto simp: buildReport_fields)
  ultimately show "\<exists>report.
      runPipeline stringify fetchFn options sA =
        (Inr report,
         [Fetch (gateway_request stringify (buildEnvelope stringify (code options)
            ''/step/prompt'' ''POST'' (prompt_payload options))),
          Fetch (gateway_request stringify (buildEnvelope stringify (code options)
            ''/step/collect'' ''POST'' (collect_payload options promptR))),
          Fetch (gateway_request stringify (buildEnvelope stringify (code options)
            ''/step/audit'' ''POST'' (audit_payload promptR collectR))),
          Fetch (gateway_request stringify (buildEnvelope stringify (code options)
            ''/step/judge'' ''POST'' (judge_payload promptR collectR auditR))),
          Fetch (gateway_request stringify (buildEnvelope stringify (code options)
            ''/step/bundle'' ''POST'' (bundle_payload promptR collectR auditR judgeR)))],
         sF) \<and>
      field bD ''outcome'' = Some (JStr (outcome report)) \<and>
      field bD ''confidence'' = Some (JNum (confidence report)) \<and>
      (\<exists>ro. field bE ''roots'' = Some ro \<and>
         field ro ''por_root'' = Some (JStr (por_root (roots report))))"
    using run by (intro exI [of _ ?report]) simp
qed

text \<open>
  The run of the test \<^verbatim>\<open>handles non-wrapped responses (no data envelope)\<close>, and
  \<^verbatim>\<open>extractData\<close> on a wrapped and on an unwrapped body of the tests.
\<close>

theorem extractData_unwraps_before_validation_witness:
  "extractData MOCK_AUDIT_RESPONSE =
     JObj [(''reasoning_trace'', JArr
              [JObj [(''description'', JStr ''Analyzed weather forecasts from multiple sources'')],
               JObj [(''description'', JStr ''Cross-referenced with historical precipitation data'')],
               JObj [(''description'', JStr ''Evaluated confidence based on forecast agreement'')]]),
           (''errors'', JArr [])] \<and>
   extractData UNWRAPPED_AUDIT = UNWRAPPED_AUDIT \<and>
   (\<exists>report.
      runPipeline path_stringify
        (createMockFetch
           [(''/step/prompt'', UNWRAPPED_PROMPT), (''/step/collect'', UNWRAPPED_COLLECT),
            (''/step/audit'', UNWRAPPED_AUDIT), (''/step/judge'', UNWRAPPED_JUDGE),
            (''/step/bundle'', UNWRAPPED_BUNDLE)])
        (test_options ''test'' ''code'') 0 =
      (Inr report,
       map (\<lambda>p. Fetch \<lparr>url = GATEWAY_URL, http_method = ''POST'',
                        headers = [(''Content-Type'', ''application/json'')],
                        body = p, timeout_ms = TIMEOUT_MS\<rparr>)
         [''/step/prompt'', ''/step/collect'', ''/step/audit'', ''/step/judge'', ''/step/bundle''],
       5) \<and>
      outcome report = ''NO'' \<and> confidence report = 0.3 \<and>
      por_root (roots report) = ''0x111'')"
proof -
  let ?F = "createMockFetch
      [(''/step/prompt'', UNWRAPPED_PROMPT), (''/step/collect'', UNWRAPPED_COLLECT),
       (''/step/audit'', UNWRAPPED_AUDIT), (''/step/judge'', UNWRAPPED_JUDGE),
       (''/step/bundle'', UNWRAPPED_BUNDLE)]"
  let ?opts = "test_options ''test'' ''code''"
  have req: "gateway_request path_stringify (buildEnvelope path_stringify c p ''POST'' x) =
      \<lparr>url = GATEWAY_URL, http_method = ''POST'',
       headers = [(''Content-Type'', ''application/json'')], body = p,
       timeout_ms = TIMEOUT_MS\<rparr>" for c p x
    by (simp add: gateway_request_def buildEnvelope_def path_stringify_def)
  have fA: "?F n (gateway_request path_stringify
      (buildEnvelope path_stringify c ''/step/prompt'' ''POST'' x)) =
      (Inr (ok_response UNWRAPPED_PROMPT), n + 1)" for n c x
    by (simp add: req createMockFetch_def)
  have fB: "?F n (gateway_request path_stringify
      (buildEnvelope path_stringify c ''/step/collect'' ''POST'' x)) =
      (Inr (ok_response UNWRAPPED_COLLECT), n + 1)" for n c x
    by (simp add: req createMockFetch_def)
  have fC: "?F n (gateway_request path_stringify
      (buildEnvelope path_stringify c ''/step/audit'' ''POST'' x)) =
      (Inr (ok_response UNWRAPPED_AUDIT), n + 1)" for n c x
    by (simp add: req createMockFetch_def)
  have fD: "?F n (gateway_request path_stringify
      (buildEnvelope path_stringify c ''/step/judge'' ''POST'' x)) =
      (Inr (ok_response UNWRAPPED_JUDGE), n + 1)" for n c x
    by (simp add: req createMockFetch_def)
  have fE: "?F n (gateway_request path_stringify
      (buildEnvelope path_stringify c ''/step/bundle'' ''POST'' x)) =
      (Inr (ok_response UNWRAPPED_BUNDLE), n + 1)" for n c x
    by (simp add: req createMockFetch_def)
  have okr: "ok (ok_response v)" "json_result (ok_response v) = Inr v" for v
    by (simp_all add: ok_response_def)
  have uA: "field UNWRAPPED_PROMPT ''data'' = None"
    and uB: "field UNWRAPPED_COLLECT ''data'' = None"
    and uC: "field UNWRAPPED_AUDIT ''data'' = None"
    and uD: "field UNWRAPPED_JUDGE ''data'' = None"
    and uE: "field UNWRAPPED_BUNDLE ''data'' = None"
    by (simp_all add: UNWRAPPED_PROMPT_def UNWRAPPED_COLLECT_def UNWRAPPED_AUDIT_def
        UNWRAPPED_JUDGE_def UNWRAPPED_BUNDLE_def)
  obtain promptR where pA: "promptResponseSchema UNWRAPPED_PROMPT = Some promptR"
    by (simp add: UNWRAPPED_PROMPT_def promptResponseSchema_def)
  obtain collectR where pB: "collectResponseSchema UNWRAPPED_COLLECT = Some collectR"
    by (simp add: UNWRAPPED_COLLECT_def collectResponseSchema_def)
  obtain auditR where pC: "auditResponseSchema UNWRAPPED_AUDIT = Some auditR"
    by (simp add: UNWRAPPED_AUDIT_def auditResponseSchema_def)
  obtain judgeR where pD: "judgeResponseSchema UNWRAPPED_JUDGE = Some judgeR"
    by (simp add: UNWRAPPED_JUDGE_def judgeResponseSchema_def)
  obtain bundleR where pE: "bundleResponseSchema UNWRAPPED_BUNDLE = Some bundleR"
    by (simp add: UNWRAPPED_BUNDLE_def bundleResponseSchema_def rootsSchema_def)
  note inst = extractData_unwraps_before_validation [where fetchFn = ?F
      and stringify = path_stringify and options = ?opts
      and sA = 0 and sB = 1 and sC = 2 and sD = 3 and sE = 4 and sF = 5
      and bA = UNWRAPPED_PROMPT and bB = UNWRAPPED_COLLECT and bC = UNWRAPPED_AUDIT
      and bD = UNWRAPPED_JUDGE and bE = UNWRAPPED_BUNDLE
      and promptR = promptR and collectR = collectR and auditR = auditR
      and judgeR = judgeR and bundleR = bundleR]
  note fin = inst [THEN conjunct2, THEN conjunct2, THEN conjunct2, rule_format,
      OF _ okr uA pA _ okr uB pB _ okr uC pC _ okr uD pD _ okr uE pE]
  from fin fA [of 0] fB [of 1] fC [of 2] fD [of 3] fE [of 4] obtain report where run: "runPipeline path_stringify ?F ?opts 0 =
      (Inr report,
       map (\<lambda>p. Fetch \<lparr>url = GATEWAY_URL, http_method = ''POST'',
                       headers = [(''Content-Type'', ''application/json'')],
                       body = p, timeout_ms = TIMEOUT_MS\<rparr>)
        [''/step/prompt'', ''/step/collect'', ''/step/audit'', ''/step/judge'', ''/step/bundle''],
       5)"
    and oc: "field UNWRAPPED_JUDGE ''outcome'' = Some (JStr (outcome report))"
    and cf: "field UNWRAPPED_JUDGE ''confidence'' = Some (JNum (confidence report))"
    and ro: "\<exists>ro. field UNWRAPPED_BUNDLE ''roots'' = Some ro \<and>
        field ro ''por_root'' = Some (JStr (por_root (roots report)))"
    by (auto simp: req)
  from oc cf have "outcome report = ''NO''" "confidence report = 0.3"
    by (simp_all add: UNWRAPPED_JUDGE_def)
  moreover from ro have "por_root (roots report) = ''0x111''"
    by (auto simp: UNWRAPPED_BUNDLE_def)
  moreover have "extractData MOCK_AUDIT_RESPONSE =
     JObj [(''reasoning_trace'', JArr
              [JObj [(''description'', JStr ''Analyzed weather forecasts from multiple sources'')],
               JObj [(''description'', JStr ''Cross-referenced with historical precipitation data'')],
               JObj [(''description'', JStr ''Evaluated confidence based on forecast agreement'')]]),
           (''errors'', JArr [])]"
    by (simp add: MOCK_AUDIT_RESPONSE_def)
  moreover have "extractData UNWRAPPED_AUDIT = UNWRAPPED_AUDIT"
    by (simp add: UNWRAPPED_AUDIT_def)
  ultimately show ?thesis
    using run by (intro conjI exI [of _ report]) simp_all
qed

end
